theory Spec2Isabelle
  imports Complex_Main
begin

section \<open>Field normalizers of etl\_pipeline.py\<close>

subsection \<open>Decimal digits\<close>

definition digit_char :: "nat \<Rightarrow> char" where
  "digit_char n = ''0123456789'' ! (n mod 10)"

definition is_digit :: "char \<Rightarrow> bool" where
  "is_digit c = (c \<in> set ''0123456789'')"

definition digit_val :: "char \<Rightarrow> nat" where
  "digit_val c = of_char c - 48"

text \<open>The value of a digit string, most significant digit first.\<close>

definition nat_of_digits :: "string \<Rightarrow> nat" where
  "nat_of_digits s = foldl (\<lambda>acc c. 10 * acc + digit_val c) 0 s"

text \<open>The decimal numeral of a natural number, without leading zeros.\<close>

fun digits_of_nat :: "nat \<Rightarrow> string" where
  "digits_of_nat n =
     (if n < 10 then [digit_char n] else digits_of_nat (n div 10) @ [digit_char (n mod 10)])"

declare digits_of_nat.simps [simp del]

text \<open>Python's \<open>str\<close> on an \<open>int\<close>: a minus sign, then the digits.\<close>

definition py_str_int :: "int \<Rightarrow> string" where
  "py_str_int n = (if n < 0 then CHR ''-'' # digits_of_nat (nat (- n)) else digits_of_nat (nat n))"

subsection \<open>Python values and exceptions\<close>

text \<open>
  A Python \<open>float\<close>: a finite value, an infinity (of either sign) or not-a-number.
\<close>

datatype pyfloat = Finite rat | Infinity | NaN

text \<open>
  One cell of a data frame as \<open>clean_phone\<close> receives it: missing, a number (held as
  the float that \<open>float()\<close> returns for it) or text.
\<close>

datatype cell = NA | Num pyfloat | Str string

datatype py_error = TypeError | ValueError | OverflowError | IndexError

subsection \<open>Calendar dates\<close>

datatype date = Date (year: nat) (month: nat) (day: nat)

definition leap_year :: "nat \<Rightarrow> bool" where
  "leap_year y = (y mod 4 = 0 \<and> (y mod 100 \<noteq> 0 \<or> y mod 400 = 0))"

definition days_in_month :: "nat \<Rightarrow> nat \<Rightarrow> nat" where
  "days_in_month y m =
     (if m = 2 then (if leap_year y then 29 else 28)
      else if m = 4 \<or> m = 6 \<or> m = 9 \<or> m = 11 then 30 else 31)"

text \<open>
  A day of the proleptic Gregorian calendar with a year of at most four digits. The year 0
  is one of them: the library's timestamps have it, Python's \<open>datetime.date\<close> has not.
\<close>

definition calendar_day :: "date \<Rightarrow> bool" where
  "calendar_day d =
     (year d \<le> 9999 \<and> 1 \<le> month d \<and> month d \<le> 12 \<and>
      1 \<le> day d \<and> day d \<le> days_in_month (year d) (month d))"

text \<open>A date that Python's \<open>datetime.date\<close> can hold: years 1 to 9999.\<close>

definition valid_date :: "date \<Rightarrow> bool" where
  "valid_date d =
     (1 \<le> year d \<and> year d \<le> 9999 \<and> 1 \<le> month d \<and> month d \<le> 12 \<and>
      1 \<le> day d \<and> day d \<le> days_in_month (year d) (month d))"

text \<open>
  The four format strings that \<open>clean_date_series\<close> passes to \<open>pd.to_datetime\<close>:
  \<open>'%Y-%m-%d'\<close>, \<open>'%d/%m/%Y'\<close>, \<open>'%m-%d-%Y'\<close> and \<open>'%m/%d/%Y'\<close>.
\<close>

datatype date_format = Fmt_Ymd_hyphen | Fmt_dmY_slash | Fmt_mdY_hyphen | Fmt_mdY_slash

fun split_on :: "char \<Rightarrow> string \<Rightarrow> string list" where
  "split_on sep [] = [[]]"
| "split_on sep (c # cs) =
     (if c = sep then [] # split_on sep cs
      else (case split_on sep cs of [] \<Rightarrow> [[c]] | w # ws \<Rightarrow> (c # w) # ws))"

text \<open>The directive \<open>%Y\<close>: exactly four digits.\<close>

definition year_field :: "string \<Rightarrow> nat option" where
  "year_field t = (if length t = 4 \<and> list_all is_digit t then Some (nat_of_digits t) else None)"

text \<open>The directives \<open>%m\<close> and \<open>%d\<close>: one or two digits.\<close>

definition short_field :: "string \<Rightarrow> nat option" where
  "short_field t =
     (if (length t = 1 \<or> length t = 2) \<and> list_all is_digit t then Some (nat_of_digits t) else None)"

definition mk_date :: "nat option \<Rightarrow> nat option \<Rightarrow> nat option \<Rightarrow> date option" where
  "mk_date y m d =
     (case y of None \<Rightarrow> None | Some y' \<Rightarrow>
      (case m of None \<Rightarrow> None | Some m' \<Rightarrow>
       (case d of None \<Rightarrow> None | Some d' \<Rightarrow>
          if calendar_day (Date y' m' d') then Some (Date y' m' d') else None)))"

text \<open>
  Modelled from the format strings in the source: the library's parser for one format,
  which is not code of this repository. The whole string must match the format; a field
  that is not a number of the directive's width, or a day that the month does not have,
  is a parse failure. The year 0000 parses. Whether the library's timestamp type can hold
  the day that was read is a separate matter, see \<open>to_datetime\<close>.
\<close>

fun strptime :: "date_format \<Rightarrow> string \<Rightarrow> date option" where
  "strptime Fmt_Ymd_hyphen s =
     (case split_on CHR ''-'' s of
        [a, b, c] \<Rightarrow> mk_date (year_field a) (short_field b) (short_field c)
      | _ \<Rightarrow> None)"
| "strptime Fmt_dmY_slash s =
     (case split_on CHR ''/'' s of
        [a, b, c] \<Rightarrow> mk_date (year_field c) (short_field b) (short_field a)
      | _ \<Rightarrow> None)"
| "strptime Fmt_mdY_hyphen s =
     (case split_on CHR ''-'' s of
        [a, b, c] \<Rightarrow> mk_date (year_field c) (short_field a) (short_field b)
      | _ \<Rightarrow> None)"
| "strptime Fmt_mdY_slash s =
     (case split_on CHR ''/'' s of
        [a, b, c] \<Rightarrow> mk_date (year_field c) (short_field a) (short_field b)
      | _ \<Rightarrow> None)"

text \<open>
  The range of the library's timestamp type is a parameter \<open>in_range\<close> of the model,
  because it differs between versions of the library. With nanosecond resolution
  (pandas 2.x) a timestamp lies between 1677-09-21 00:12:43 and 2262-04-11 23:47:16, so the
  midnights from 1677-09-22 to 2262-04-11; with the coarser resolutions of pandas 3.x every
  day that \<open>strptime\<close> reads is in range.
\<close>

definition date_le :: "date \<Rightarrow> date \<Rightarrow> bool" where
  "date_le a b =
     (year a < year b \<or>
      (year a = year b \<and> (month a < month b \<or> (month a = month b \<and> day a \<le> day b))))"

definition ns_range :: "date \<Rightarrow> bool" where
  "ns_range d = (date_le (Date 1677 9 22) d \<and> date_le d (Date 2262 4 11))"

definition unbounded_range :: "date \<Rightarrow> bool" where
  "unbounded_range d = True"

text \<open>
  One attempt on one string: \<open>errors='coerce'\<close> turns a parse failure and a day outside
  the timestamp range into \<open>NaT\<close>, here \<open>None\<close>.
\<close>

definition attempt :: "(date \<Rightarrow> bool) \<Rightarrow> date_format \<Rightarrow> string \<Rightarrow> date option" where
  "attempt in_range f s =
     (case strptime f s of None \<Rightarrow> None | Some d \<Rightarrow> if in_range d then Some d else None)"

text \<open>
  \<open>pd.to_datetime(series, format=f, errors='coerce')\<close>, entry by entry; a missing entry
  stays missing.
\<close>

definition to_datetime ::
  "(date \<Rightarrow> bool) \<Rightarrow> date_format \<Rightarrow> string option list \<Rightarrow> date option list" where
  "to_datetime in_range f series =
     map (\<lambda>x. case x of None \<Rightarrow> None | Some s \<Rightarrow> attempt in_range f s) series"

text \<open>\<open>dates.isna()\<close>, \<open>series[mask]\<close> and the assignment \<open>dates[mask] = values\<close>.\<close>

definition isna_series :: "'a option list \<Rightarrow> bool list" where
  "isna_series xs = map (\<lambda>x. x = None) xs"

fun getitem_mask :: "'a list \<Rightarrow> bool list \<Rightarrow> 'a list" where
  "getitem_mask (x # xs) (b # bs) = (if b then x # getitem_mask xs bs else getitem_mask xs bs)"
| "getitem_mask _ _ = []"

fun setitem_mask :: "'a list \<Rightarrow> bool list \<Rightarrow> 'a list \<Rightarrow> 'a list" where
  "setitem_mask (x # xs) (True # bs) (v # vs) = v # setitem_mask xs bs vs"
| "setitem_mask (x # xs) (False # bs) vs = x # setitem_mask xs bs vs"
| "setitem_mask xs _ _ = xs"

text \<open>
  \<open>dates.dt.date\<close>, the last line of \<open>clean_date_series\<close>: every timestamp becomes a
  Python \<open>date\<close>, and the conversion of the whole series raises \<open>ValueError\<close> when one
  of them has a year that \<open>date\<close> does not have.
\<close>

definition dt_date :: "date option list \<Rightarrow> py_error + date option list" where
  "dt_date dates =
     (if list_all (\<lambda>x. case x of None \<Rightarrow> True | Some d \<Rightarrow> 1 \<le> year d \<and> year d \<le> 9999) dates
      then Inr dates else Inl ValueError)"

definition clean_date_series ::
  "(date \<Rightarrow> bool) \<Rightarrow> string option list \<Rightarrow> py_error + date option list" where
  "clean_date_series in_range series =
     (let dates = to_datetime in_range Fmt_Ymd_hyphen series;
          mask = isna_series dates;
          dates = setitem_mask dates mask (to_datetime in_range Fmt_dmY_slash (getitem_mask series mask));
          mask = isna_series dates;
          dates = setitem_mask dates mask (to_datetime in_range Fmt_mdY_hyphen (getitem_mask series mask));
          mask = isna_series dates;
          dates = setitem_mask dates mask (to_datetime in_range Fmt_mdY_slash (getitem_mask series mask))
      in dt_date dates)"

text \<open>
  \<open>x.strftime('%Y-%m-%d')\<close> as the C library of Linux writes it: month and day with two
  digits, the year without padding, so with fewer than four digits before the year 1000.
\<close>

definition strftime_ymd :: "date \<Rightarrow> string" where
  "strftime_ymd d =
     digits_of_nat (year d) @
     [CHR ''-'', digit_char (month d div 10), digit_char (month d),
      CHR ''-'', digit_char (day d div 10), digit_char (day d)]"

text \<open>
  The order of attempts written out for one entry: the first format that gives a timestamp
  wins.
\<close>

definition first_format :: "(date \<Rightarrow> bool) \<Rightarrow> string option \<Rightarrow> date option" where
  "first_format in_range x =
     (case x of None \<Rightarrow> None
      | Some s \<Rightarrow>
         (case attempt in_range Fmt_Ymd_hyphen s of Some d \<Rightarrow> Some d
          | None \<Rightarrow>
             (case attempt in_range Fmt_dmY_slash s of Some d \<Rightarrow> Some d
              | None \<Rightarrow>
                 (case attempt in_range Fmt_mdY_hyphen s of Some d \<Rightarrow> Some d
                  | None \<Rightarrow> attempt in_range Fmt_mdY_slash s))))"

subsection \<open>Phone numbers\<close>

text \<open>\<open>pd.isna\<close> on a scalar.\<close>

definition isna :: "cell \<Rightarrow> bool" where
  "isna c = (c = NA \<or> c = Num NaN)"

text \<open>
  Python's \<open>float()\<close>. What it makes of a text is the library's business: the parameter
  \<open>float_of_str\<close> gives the float, or \<open>None\<close> when \<open>float()\<close> raises \<open>ValueError\<close>.
\<close>

fun py_float :: "(string \<Rightarrow> pyfloat option) \<Rightarrow> cell \<Rightarrow> py_error + pyfloat" where
  "py_float float_of_str NA = Inl TypeError"
| "py_float float_of_str (Num f) = Inr f"
| "py_float float_of_str (Str s) =
     (case float_of_str s of None \<Rightarrow> Inl ValueError | Some f \<Rightarrow> Inr f)"

text \<open>Python's \<open>int()\<close> on a float: truncation towards zero.\<close>

fun py_int :: "pyfloat \<Rightarrow> py_error + int" where
  "py_int (Finite r) = Inr (if r < 0 then - \<lfloor>- r\<rfloor> else \<lfloor>r\<rfloor>)"
| "py_int Infinity = Inl OverflowError"
| "py_int NaN = Inl ValueError"

text \<open>
  \<open>clean_phone\<close>. The bare \<open>except: pass\<close> turns every exception of the conversion
  into the final \<open>return None\<close>; \<open>phone_str[-10:]\<close> is the last ten characters.
\<close>

definition clean_phone :: "(string \<Rightarrow> pyfloat option) \<Rightarrow> cell \<Rightarrow> string option" where
  "clean_phone float_of_str phone =
     (if isna phone then None
      else (case py_float float_of_str phone of
              Inl e \<Rightarrow> None
            | Inr f \<Rightarrow>
               (case py_int f of
                  Inl e \<Rightarrow> None
                | Inr n \<Rightarrow>
                   (let phone_str = py_str_int n
                    in if length phone_str \<ge> 10
                       then Some (''+91-'' @ drop (length phone_str - 10) phone_str)
                       else None))))"

text \<open>The documented result format \<open>+91-XXXXXXXXXX\<close>: the prefix and exactly ten digits.\<close>

definition canonical_phone :: "string \<Rightarrow> bool" where
  "canonical_phone s = (take 4 s = ''+91-'' \<and> length s = 14 \<and> list_all is_digit (drop 4 s))"

section \<open>The metrics tracker\<close>

text \<open>
  \<open>DataQualityMetrics\<close>: two dictionaries of dictionaries of integers that default to
  zero, keyed by file name and then by counter name or drop reason.
\<close>

record DataQualityMetrics =
  metrics :: "string \<Rightarrow> string \<Rightarrow> int"
  drop_reasons :: "string \<Rightarrow> string \<Rightarrow> int"

definition new_metrics :: DataQualityMetrics where
  "new_metrics = \<lparr>metrics = (\<lambda>file key. 0), drop_reasons = (\<lambda>file reason. 0)\<rparr>"

definition increment :: "(string \<Rightarrow> string \<Rightarrow> int) \<Rightarrow> string \<Rightarrow> string \<Rightarrow> int \<Rightarrow> string \<Rightarrow> string \<Rightarrow> int" where
  "increment table file key n = table(file := (table file)(key := table file key + n))"

definition read :: "string \<Rightarrow> int \<Rightarrow> DataQualityMetrics \<Rightarrow> DataQualityMetrics" where
  "read file n m = m\<lparr>metrics := increment (metrics m) file ''records_read'' n\<rparr>"

definition dup :: "string \<Rightarrow> int \<Rightarrow> DataQualityMetrics \<Rightarrow> DataQualityMetrics" where
  "dup file n m = m\<lparr>metrics := increment (metrics m) file ''duplicates_removed'' n\<rparr>"

definition filled :: "string \<Rightarrow> int \<Rightarrow> DataQualityMetrics \<Rightarrow> DataQualityMetrics" where
  "filled file n m = m\<lparr>metrics := increment (metrics m) file ''missing_values_filled'' n\<rparr>"

definition loaded :: "string \<Rightarrow> int \<Rightarrow> DataQualityMetrics \<Rightarrow> DataQualityMetrics" where
  "loaded file n m = m\<lparr>metrics := increment (metrics m) file ''records_loaded'' n\<rparr>"

definition dropped :: "string \<Rightarrow> string \<Rightarrow> int \<Rightarrow> DataQualityMetrics \<Rightarrow> DataQualityMetrics" where
  "dropped file reason n m =
     m\<lparr>metrics := increment (metrics m) file ''rows_dropped'' n,
       drop_reasons := increment (drop_reasons m) file reason n\<rparr>"

section \<open>The library\<close>

text \<open>
  What the program takes from its libraries and what differs between their versions or is
  beyond this model is a parameter: \<open>float()\<close> on a text; the range of the timestamp
  type; what \<open>astype(str)\<close> makes of a missing text (the text \<open>nan\<close> in pandas 2.x,
  still missing in pandas 3.x); the product of an integer quantity and a float price in
  binary floating point; and the sum of a column of floats. A float is held as the
  rational number it stands for.
\<close>

record library =
  lib_float_of_str :: "string \<Rightarrow> pyfloat option"
  lib_timestamp_range :: "date \<Rightarrow> bool"
  lib_str_of_missing :: "string option"
  lib_float_mul :: "int \<Rightarrow> rat \<Rightarrow> rat"
  lib_float_sum :: "rat list \<Rightarrow> rat"

section \<open>Letter case\<close>

text \<open>ASCII letters, their case, and \<open>str.title()\<close> on texts of them.\<close>

definition lower_letters :: string where
  "lower_letters = ''abcdefghijklmnopqrstuvwxyz''"

definition upper_letters :: string where
  "upper_letters = ''ABCDEFGHIJKLMNOPQRSTUVWXYZ''"

definition is_lower :: "char \<Rightarrow> bool" where
  "is_lower c = (c \<in> set lower_letters)"

definition is_upper :: "char \<Rightarrow> bool" where
  "is_upper c = (c \<in> set upper_letters)"

definition to_upper :: "char \<Rightarrow> char" where
  "to_upper c = (case map_of (zip lower_letters upper_letters) c of None \<Rightarrow> c | Some u \<Rightarrow> u)"

definition to_lower :: "char \<Rightarrow> char" where
  "to_lower c = (case map_of (zip upper_letters lower_letters) c of None \<Rightarrow> c | Some l \<Rightarrow> l)"

fun title_from :: "bool \<Rightarrow> string \<Rightarrow> string" where
  "title_from inside [] = []"
| "title_from inside (c # cs) =
     (if is_lower c \<or> is_upper c
      then (if inside then to_lower c else to_upper c) # title_from True cs
      else c # title_from False cs)"

definition title :: "string \<Rightarrow> string" where
  "title s = title_from False s"



section \<open>The storage\<close>

text \<open>
  The four tables of \<open>create_database_schema\<close>. A stored row is its generated key and the
  values the insert statement was given. Each table keeps the last value of its
  \<open>AUTO_INCREMENT\<close> counter. The model has the schema's \<open>NOT NULL\<close> columns, the widths
  of its \<open>VARCHAR\<close> columns, the ranges of its \<open>INT\<close> and \<open>DECIMAL(10,2)\<close> columns,
  its foreign keys and the \<open>UNIQUE\<close> email, with the storage in its default strict mode
  and emails compared without regard to letter case, as the default collation does.
\<close>

record customer_values =
  first_name :: "string option"
  last_name :: "string option"
  email :: "string option"
  phone :: "string option"
  city :: "string option"
  registration_date :: "string option"

record product_values =
  product_name :: "string option"
  category :: "string option"
  price :: "rat option"
  stock_quantity :: "int option"

record order_values =
  order_customer_id :: nat
  order_date :: "string option"
  total_amount :: rat
  status :: string

text \<open>A \<open>None\<close> in \<open>unit_price\<close> or \<open>subtotal\<close> is Python's not-a-number.\<close>

record order_item_values =
  item_order_id :: nat
  item_product_id :: nat
  quantity :: int
  unit_price :: "rat option"
  subtotal :: "rat option"

record database =
  customers :: "(nat \<times> customer_values) list"
  customers_auto :: nat
  products :: "(nat \<times> product_values) list"
  products_auto :: nat
  orders :: "(nat \<times> order_values) list"
  orders_auto :: nat
  order_items :: "(nat \<times> order_item_values) list"
  order_items_auto :: nat

definition empty_database :: database where
  "empty_database =
     \<lparr>customers = [], customers_auto = 0, products = [], products_auto = 0,
      orders = [], orders_auto = 0, order_items = [], order_items_auto = 0\<rparr>"

text \<open>
  The storage's error, with the key or column it names: a duplicate entry, a null in a
  \<open>NOT NULL\<close> column, a text wider than its column, a number outside its column's range,
  a value that is not a number, a foreign key without its parent row.
\<close>

datatype db_error =
  DuplicateEntry string | ColumnCannotBeNull string | DataTooLong string |
  OutOfRange string | NotANumber string | ForeignKeyFails string

text \<open>
  \<open>'Duplicate entry' in str(e) and 'email' in str(e)\<close>, the test for the recognized
  duplicate-email violation.
\<close>

fun duplicate_email_error :: "db_error \<Rightarrow> bool" where
  "duplicate_email_error (DuplicateEntry key) = (key = ''email'')"
| "duplicate_email_error _ = False"

definition too_long :: "nat \<Rightarrow> string option \<Rightarrow> bool" where
  "too_long width x = (case x of None \<Rightarrow> False | Some s \<Rightarrow> width < length s)"

text \<open>
  A number fits \<open>DECIMAL(10,2)\<close> when, rounded to two places, it has at most eight digits
  before the point.
\<close>

definition decimal_10_2 :: "rat \<Rightarrow> bool" where
  "decimal_10_2 x = (\<bar>x\<bar> < 99999999995 / 1000)"

definition int_column :: "int \<Rightarrow> bool" where
  "int_column n = (- 2147483648 \<le> n \<and> n \<le> 2147483647)"

text \<open>The collation key of a text: its letters in lower case.\<close>

definition collate :: "string \<Rightarrow> string" where
  "collate s = map to_lower s"

text \<open>What the storage checks of the values of a customer before it looks at the keys.\<close>

definition customer_values_error :: "customer_values \<Rightarrow> db_error option" where
  "customer_values_error v =
     (if first_name v = None then Some (ColumnCannotBeNull ''first_name'')
      else if last_name v = None then Some (ColumnCannotBeNull ''last_name'')
      else if email v = None then Some (ColumnCannotBeNull ''email'')
      else if too_long 50 (first_name v) then Some (DataTooLong ''first_name'')
      else if too_long 50 (last_name v) then Some (DataTooLong ''last_name'')
      else if too_long 100 (email v) then Some (DataTooLong ''email'')
      else if too_long 20 (phone v) then Some (DataTooLong ''phone'')
      else if too_long 50 (city v) then Some (DataTooLong ''city'')
      else None)"

definition stored_emails :: "database \<Rightarrow> string option list" where
  "stored_emails db = map (\<lambda>row. map_option collate (email (snd row))) (customers db)"

text \<open>
  An insert returns the generated key (\<open>cur.lastrowid\<close>) and the new storage, or the
  error and the storage after it: a duplicate entry is found when the next
  \<open>AUTO_INCREMENT\<close> value has been taken, and that value is lost.
\<close>

definition insert_customer ::
  "customer_values \<Rightarrow> database \<Rightarrow> db_error \<times> database + nat \<times> database" where
  "insert_customer v db =
     (case customer_values_error v of
        Some e \<Rightarrow> Inl (e, db)
      | None \<Rightarrow>
         (let new_id = Suc (customers_auto db)
          in if map_option collate (email v) \<in> set (stored_emails db)
             then Inl (DuplicateEntry ''email'', db\<lparr>customers_auto := new_id\<rparr>)
             else Inr (new_id, db\<lparr>customers := customers db @ [(new_id, v)],
                                   customers_auto := new_id\<rparr>)))"

text \<open>\<open>SELECT customer_id FROM customers WHERE email = %s\<close> and \<open>fetchone()\<close>.\<close>

definition select_customer_id :: "database \<Rightarrow> string option \<Rightarrow> nat option" where
  "select_customer_id db e =
     (case filter (\<lambda>row. e \<noteq> None \<and> map_option collate (email (snd row)) = map_option collate e)
             (customers db) of
        [] \<Rightarrow> None
      | row # _ \<Rightarrow> Some (fst row))"

definition product_values_error :: "product_values \<Rightarrow> db_error option" where
  "product_values_error v =
     (if product_name v = None then Some (ColumnCannotBeNull ''product_name'')
      else if category v = None then Some (ColumnCannotBeNull ''category'')
      else if price v = None then Some (ColumnCannotBeNull ''price'')
      else if too_long 100 (product_name v) then Some (DataTooLong ''product_name'')
      else if too_long 50 (category v) then Some (DataTooLong ''category'')
      else if \<not> (case price v of None \<Rightarrow> True | Some p \<Rightarrow> decimal_10_2 p)
        then Some (OutOfRange ''price'')
      else if \<not> (case stock_quantity v of None \<Rightarrow> True | Some q \<Rightarrow> int_column q)
        then Some (OutOfRange ''stock_quantity'')
      else None)"

definition insert_product :: "product_values \<Rightarrow> database \<Rightarrow> db_error + nat \<times> database" where
  "insert_product v db =
     (case product_values_error v of
        Some e \<Rightarrow> Inl e
      | None \<Rightarrow>
         (let new_id = Suc (products_auto db)
          in Inr (new_id, db\<lparr>products := products db @ [(new_id, v)], products_auto := new_id\<rparr>)))"

definition order_values_error :: "order_values \<Rightarrow> database \<Rightarrow> db_error option" where
  "order_values_error v db =
     (if order_date v = None then Some (ColumnCannotBeNull ''order_date'')
      else if \<not> decimal_10_2 (total_amount v) then Some (OutOfRange ''total_amount'')
      else if 20 < length (status v) then Some (DataTooLong ''status'')
      else if order_customer_id v \<notin> set (map fst (customers db))
        then Some (ForeignKeyFails ''customer_id'')
      else None)"

definition insert_order :: "order_values \<Rightarrow> database \<Rightarrow> db_error + nat \<times> database" where
  "insert_order v db =
     (case order_values_error v db of
        Some e \<Rightarrow> Inl e
      | None \<Rightarrow>
         (let new_id = Suc (orders_auto db)
          in Inr (new_id, db\<lparr>orders := orders db @ [(new_id, v)], orders_auto := new_id\<rparr>)))"

definition order_item_values_error :: "order_item_values \<Rightarrow> database \<Rightarrow> db_error option" where
  "order_item_values_error v db =
     (if unit_price v = None then Some (NotANumber ''unit_price'')
      else if subtotal v = None then Some (NotANumber ''subtotal'')
      else if \<not> int_column (quantity v) then Some (OutOfRange ''quantity'')
      else if \<not> (case unit_price v of None \<Rightarrow> True | Some p \<Rightarrow> decimal_10_2 p)
        then Some (OutOfRange ''unit_price'')
      else if \<not> (case subtotal v of None \<Rightarrow> True | Some p \<Rightarrow> decimal_10_2 p)
        then Some (OutOfRange ''subtotal'')
      else if item_order_id v \<notin> set (map fst (orders db)) then Some (ForeignKeyFails ''order_id'')
      else if item_product_id v \<notin> set (map fst (products db))
        then Some (ForeignKeyFails ''product_id'')
      else None)"

definition insert_order_item :: "order_item_values \<Rightarrow> database \<Rightarrow> db_error + nat \<times> database" where
  "insert_order_item v db =
     (case order_item_values_error v db of
        Some e \<Rightarrow> Inl e
      | None \<Rightarrow>
         (let new_id = Suc (order_items_auto db)
          in Inr (new_id, db\<lparr>order_items := order_items db @ [(new_id, v)],
                                order_items_auto := new_id\<rparr>)))"

text \<open>What stops a loader: an error of the storage or a Python exception.\<close>

datatype load_error = Storage db_error | Python py_error

section \<open>Data frames\<close>

text \<open>
  \<open>drop_duplicates(subset=[column], keep='first')\<close>: of the rows with equal values in the
  column the first one stays. Two missing values count as equal.
\<close>

fun drop_duplicates_by :: "('a \<Rightarrow> 'k) \<Rightarrow> 'a list \<Rightarrow> 'a list" where
  "drop_duplicates_by key [] = []"
| "drop_duplicates_by key (x # xs) =
     x # drop_duplicates_by key (filter (\<lambda>y. key y \<noteq> key x) xs)"

text \<open>\<open>isna().sum()\<close> of a column.\<close>

definition count_missing :: "'a option list \<Rightarrow> int" where
  "count_missing column = int (length (filter (\<lambda>x. x = None) column))"

text \<open>
  \<open>groupby(column)\<close>: the distinct present keys in ascending order, each with its rows in
  source order. Rows whose key is missing are in no group.
\<close>

definition groupby :: "('a \<Rightarrow> 'k::linorder option) \<Rightarrow> 'a list \<Rightarrow> ('k \<times> 'a list) list" where
  "groupby key df =
     map (\<lambda>k. (k, filter (\<lambda>r. key r = Some k) df)) (sort (remdups (List.map_filter key df)))"


section \<open>The customer loader\<close>

record customer_row =
  cr_customer_id :: string
  cr_first_name :: "string option"
  cr_last_name :: "string option"
  cr_email :: "string option"
  cr_phone :: cell
  cr_city :: "string option"
  cr_registration_date :: "string option"

definition customers_file :: string where
  "customers_file = ''../data/customers_raw.csv''"

text \<open>\<open>date_series.apply(lambda x: x.strftime('%Y-%m-%d') if pd.notna(x) else None)\<close>\<close>

definition date_strings :: "date option list \<Rightarrow> string option list" where
  "date_strings dates = map (map_option strftime_ymd) dates"

text \<open>
  Steps 1 to 4 of \<open>process_customers\<close>: count, deduplicate by email, drop the rows
  without email, normalize phone and registration date. The result is the frame that the
  insert loop walks, each row as its source id and the values of its insert, and the
  metrics; or the exception that \<open>clean_date_series\<close> raises.
\<close>

definition transform_customers ::
  "library \<Rightarrow> customer_row list \<Rightarrow> DataQualityMetrics \<Rightarrow>
   load_error + (string \<times> customer_values) list \<times> DataQualityMetrics" where
  "transform_customers lib rows m =
     (let m = read customers_file (int (length rows)) m;
          n_before = int (length rows);
          df = drop_duplicates_by cr_email rows;
          m = dup customers_file (n_before - int (length df)) m;
          m = dropped customers_file ''missing_email'' (count_missing (map cr_email df)) m;
          df = filter (\<lambda>r. cr_email r \<noteq> None) df;
          phones = map (\<lambda>r. clean_phone (lib_float_of_str lib) (cr_phone r)) df
      in case clean_date_series (lib_timestamp_range lib) (map cr_registration_date df) of
           Inl e \<Rightarrow> Inl (Python e)
         | Inr date_series \<Rightarrow>
            (let dates = date_strings date_series;
                 invalid_dates = count_missing dates;
                 m = (if invalid_dates > 0 then filled customers_file invalid_dates m else m)
             in Inr (map (\<lambda>(r, p, d).
                           (cr_customer_id r,
                            \<lparr>first_name = cr_first_name r, last_name = cr_last_name r,
                             email = cr_email r, phone = p, city = cr_city r,
                             registration_date = d\<rparr>))
                       (zip df (zip phones dates)),
                     m)))"

text \<open>
  The state of the insert loop: the storage, the \<open>id_map\<close> under construction, the
  metrics and what the loop has printed (the email and the error of each row it gave up).
\<close>

record customers_state =
  cs_db :: database
  cs_id_map :: "string \<rightharpoonup> nat"
  cs_metrics :: DataQualityMetrics
  cs_log :: "(string option \<times> db_error) list"

text \<open>One turn of the loop: the \<open>try\<close> with its \<open>except Error\<close>.\<close>

definition load_customer :: "customers_state \<Rightarrow> string \<times> customer_values \<Rightarrow> customers_state" where
  "load_customer st row =
     (case insert_customer (snd row) (cs_db st) of
        Inr (new_id, db') \<Rightarrow>
          st\<lparr>cs_db := db',
             cs_metrics := loaded customers_file 1 (cs_metrics st),
             cs_id_map := (if new_id \<noteq> 0 then (cs_id_map st)(fst row \<mapsto> new_id) else cs_id_map st)\<rparr>
      | Inl (e, db') \<Rightarrow>
          if duplicate_email_error e
          then (case select_customer_id db' (email (snd row)) of
                  Some existing \<Rightarrow> st\<lparr>cs_db := db', cs_id_map := (cs_id_map st)(fst row \<mapsto> existing)\<rparr>
                | None \<Rightarrow> st\<lparr>cs_db := db'\<rparr>)
          else st\<lparr>cs_db := db', cs_log := cs_log st @ [(email (snd row), e)]\<rparr>)"

fun load_customers :: "customers_state \<Rightarrow> (string \<times> customer_values) list \<Rightarrow> customers_state" where
  "load_customers st [] = st"
| "load_customers st (row # df) = load_customers (load_customer st row) df"

definition process_customers ::
  "library \<Rightarrow> customer_row list \<Rightarrow> database \<Rightarrow> DataQualityMetrics \<Rightarrow> load_error + customers_state" where
  "process_customers lib rows db m =
     (case transform_customers lib rows m of
        Inl e \<Rightarrow> Inl e
      | Inr (df, m') \<Rightarrow>
          Inr (load_customers \<lparr>cs_db = db, cs_id_map = Map.empty, cs_metrics = m', cs_log = []\<rparr> df))"

section \<open>The product loader\<close>

record product_row =
  pr_product_id :: string
  pr_product_name :: "string option"
  pr_category :: "string option"
  pr_price :: "rat option"
  pr_stock_quantity :: "int option"

definition products_file :: string where
  "products_file = ''../data/products_raw.csv''"

text \<open>
  \<open>astype(str)\<close> on one value of a text column; what becomes of a missing value is the
  library's.
\<close>

definition astype_str :: "library \<Rightarrow> string option \<Rightarrow> string option" where
  "astype_str lib x = (case x of None \<Rightarrow> lib_str_of_missing lib | Some s \<Rightarrow> Some s)"

text \<open>\<open>fillna(0)\<close> on one value.\<close>

definition fillna0 :: "int option \<Rightarrow> int option" where
  "fillna0 x = (case x of None \<Rightarrow> Some 0 | Some q \<Rightarrow> Some q)"

text \<open>
  Steps 1 to 5 of \<open>process_products\<close>: count, deduplicate by product id, title-case the
  category, fill the missing stock with zero, drop the rows without price.
\<close>

definition transform_products ::
  "library \<Rightarrow> product_row list \<Rightarrow> DataQualityMetrics \<Rightarrow>
   (string \<times> product_values) list \<times> DataQualityMetrics" where
  "transform_products lib rows m =
     (let m = read products_file (int (length rows)) m;
          n_before = int (length rows);
          df = drop_duplicates_by pr_product_id rows;
          m = dup products_file (n_before - int (length df)) m;
          df = map (\<lambda>r. r\<lparr>pr_category := map_option title (astype_str lib (pr_category r))\<rparr>) df;
          null_stock = count_missing (map pr_stock_quantity df);
          df = map (\<lambda>r. r\<lparr>pr_stock_quantity := fillna0 (pr_stock_quantity r)\<rparr>) df;
          m = filled products_file null_stock m;
          m = dropped products_file ''missing_price'' (count_missing (map pr_price df)) m;
          df = filter (\<lambda>r. pr_price r \<noteq> None) df
      in (map (\<lambda>r. (pr_product_id r,
                     \<lparr>product_name = pr_product_name r, category = pr_category r,
                      price = pr_price r, stock_quantity = pr_stock_quantity r\<rparr>)) df,
          m))"

record products_state =
  ps_db :: database
  ps_id_map :: "string \<rightharpoonup> nat"
  ps_metrics :: DataQualityMetrics

text \<open>The insert loop has no \<open>try\<close>: an error of the storage leaves the function.\<close>

fun load_products :: "products_state \<Rightarrow> (string \<times> product_values) list \<Rightarrow> load_error + products_state" where
  "load_products st [] = Inr st"
| "load_products st (row # df) =
     (case insert_product (snd row) (ps_db st) of
        Inl e \<Rightarrow> Inl (Storage e)
      | Inr (new_id, db') \<Rightarrow>
          load_products
            (st\<lparr>ps_db := db', ps_id_map := (ps_id_map st)(fst row \<mapsto> new_id),
                ps_metrics := loaded products_file 1 (ps_metrics st)\<rparr>) df)"

definition process_products ::
  "library \<Rightarrow> product_row list \<Rightarrow> database \<Rightarrow> DataQualityMetrics \<Rightarrow> load_error + products_state" where
  "process_products lib rows db m =
     (case transform_products lib rows m of
        (df, m') \<Rightarrow> load_products \<lparr>ps_db = db, ps_id_map = Map.empty, ps_metrics = m'\<rparr> df)"

section \<open>The sales aggregator\<close>

record 'k sales_row =
  sr_transaction_id :: "'k option"
  sr_customer_id :: string
  sr_product_id :: string
  sr_quantity :: "int option"
  sr_unit_price :: "rat option"
  sr_transaction_date :: "string option"

text \<open>A row of the frame after step 3: the columns of the file and the two resolved keys.\<close>

record 'k sale =
  transaction_id :: "'k option"
  customer_id :: string
  product_id :: string
  sale_quantity :: "int option"
  sale_unit_price :: "rat option"
  transaction_date :: "string option"
  db_customer_id :: "nat option"
  db_product_id :: "nat option"

definition sales_file :: string where
  "sales_file = ''../data/sales_raw.csv''"

definition map_ids :: "(string \<rightharpoonup> nat) \<Rightarrow> (string \<rightharpoonup> nat) \<Rightarrow> 'k sales_row \<Rightarrow> 'k sale" where
  "map_ids cust_map prod_map r =
     \<lparr>transaction_id = sr_transaction_id r, customer_id = sr_customer_id r,
      product_id = sr_product_id r, sale_quantity = sr_quantity r,
      sale_unit_price = sr_unit_price r, transaction_date = sr_transaction_date r,
      db_customer_id = cust_map (sr_customer_id r), db_product_id = prod_map (sr_product_id r)\<rparr>"

definition orphan :: "'k sale \<Rightarrow> bool" where
  "orphan s = (db_customer_id s = None \<or> db_product_id s = None)"

text \<open>
  Steps 1 to 5 of \<open>process_sales\<close>: count, drop the rows that repeat an earlier row in
  every column, resolve the source ids, drop the orphans, normalize the dates and drop the
  rows whose date no format reads.
\<close>

definition transform_sales ::
  "library \<Rightarrow> (string \<rightharpoonup> nat) \<Rightarrow> (string \<rightharpoonup> nat) \<Rightarrow> 'k sales_row list \<Rightarrow> DataQualityMetrics \<Rightarrow>
   load_error + 'k sale list \<times> DataQualityMetrics" where
  "transform_sales lib cust_map prod_map rows m =
     (let m = read sales_file (int (length rows)) m;
          n_before = int (length rows);
          df = drop_duplicates_by (\<lambda>r. r) rows;
          m = dup sales_file (n_before - int (length df)) m;
          df = map (map_ids cust_map prod_map) df;
          orphans = filter orphan df;
          m = dropped sales_file ''orphan_record_missing_parent'' (int (length orphans)) m;
          valid_sales = filter (\<lambda>s. db_customer_id s \<noteq> None \<and> db_product_id s \<noteq> None) df
      in case clean_date_series (lib_timestamp_range lib) (map transaction_date valid_sales) of
           Inl e \<Rightarrow> Inl (Python e)
         | Inr date_series \<Rightarrow>
            (let dates = date_strings date_series;
                 valid_sales = map (\<lambda>(s, d). s\<lparr>transaction_date := d\<rparr>) (zip valid_sales dates);
                 failed_dates = count_missing (map transaction_date valid_sales)
             in if failed_dates > 0
                then Inr (filter (\<lambda>s. transaction_date s \<noteq> None) valid_sales,
                          dropped sales_file ''invalid_transaction_date'' failed_dates m)
                else Inr (valid_sales, m)))"

text \<open>\<open>quantity * unit_price\<close> on values that may be missing.\<close>

definition line_amount :: "library \<Rightarrow> 'k sale \<Rightarrow> rat option" where
  "line_amount lib s =
     (case sale_quantity s of None \<Rightarrow> None
      | Some q \<Rightarrow> (case sale_unit_price s of None \<Rightarrow> None | Some p \<Rightarrow> Some (lib_float_mul lib q p)))"

text \<open>\<open>(group['quantity'] * group['unit_price']).sum()\<close>; the sum skips missing products.\<close>

definition group_total :: "library \<Rightarrow> 'k sale list \<Rightarrow> rat" where
  "group_total lib rows = lib_float_sum lib (List.map_filter (line_amount lib) rows)"

text \<open>
  The inner loop that builds \<open>item_rows\<close>; \<open>int()\<close> raises \<open>ValueError\<close> on a missing
  value.
\<close>

fun item_rows :: "library \<Rightarrow> nat \<Rightarrow> 'k sale list \<Rightarrow> load_error + order_item_values list" where
  "item_rows lib new_order_id [] = Inr []"
| "item_rows lib new_order_id (s # rows) =
     (case db_product_id s of
        None \<Rightarrow> Inl (Python ValueError)
      | Some p \<Rightarrow>
         (case sale_quantity s of
            None \<Rightarrow> Inl (Python ValueError)
          | Some q \<Rightarrow>
             (case item_rows lib new_order_id rows of
                Inl e \<Rightarrow> Inl e
              | Inr items \<Rightarrow>
                  Inr (\<lparr>item_order_id = new_order_id, item_product_id = p, quantity = q,
                        unit_price = sale_unit_price s, subtotal = line_amount lib s\<rparr> # items))))"

fun insert_items :: "order_item_values list \<Rightarrow> database \<Rightarrow> load_error + database" where
  "insert_items [] db = Inr db"
| "insert_items (item # items) db =
     (case insert_order_item item db of
        Inl e \<Rightarrow> Inl (Storage e)
      | Inr (new_id, db') \<Rightarrow> insert_items items db')"

text \<open>One turn of the loop over the groups: the order, then its items.\<close>

definition load_group ::
  "library \<Rightarrow> database \<times> int \<Rightarrow> 'k \<times> 'k sale list \<Rightarrow> load_error + database \<times> int" where
  "load_group lib st g =
     (case snd g of
        [] \<Rightarrow> Inl (Python IndexError)
      | first # rest \<Rightarrow>
         (case db_customer_id first of
            None \<Rightarrow> Inl (Python ValueError)
          | Some c \<Rightarrow>
             (case insert_order
                     \<lparr>order_customer_id = c, order_date = transaction_date first,
                      total_amount = group_total lib (snd g), status = ''Completed''\<rparr> (fst st) of
                Inl e \<Rightarrow> Inl (Storage e)
              | Inr (new_order_id, db') \<Rightarrow>
                 (case item_rows lib new_order_id (snd g) of
                    Inl e \<Rightarrow> Inl e
                  | Inr items \<Rightarrow>
                     (case insert_items items db' of
                        Inl e \<Rightarrow> Inl e
                      | Inr db'' \<Rightarrow> Inr (db'', snd st + int (length items)))))))"

fun load_groups ::
  "library \<Rightarrow> database \<times> int \<Rightarrow> ('k \<times> 'k sale list) list \<Rightarrow> load_error + database \<times> int" where
  "load_groups lib st [] = Inr st"
| "load_groups lib st (g # gs) =
     (case load_group lib st g of Inl e \<Rightarrow> Inl e | Inr st' \<Rightarrow> load_groups lib st' gs)"

record sales_result =
  sales_db :: database
  sales_metrics :: DataQualityMetrics

definition process_sales ::
  "library \<Rightarrow> (string \<rightharpoonup> nat) \<Rightarrow> (string \<rightharpoonup> nat) \<Rightarrow> ('k::linorder) sales_row list \<Rightarrow> database \<Rightarrow>
   DataQualityMetrics \<Rightarrow> load_error + sales_result" where
  "process_sales lib cust_map prod_map rows db m =
     (case transform_sales lib cust_map prod_map rows m of
        Inl e \<Rightarrow> Inl e
      | Inr (valid_sales, m') \<Rightarrow>
          (case load_groups lib (db, 0) (groupby transaction_id valid_sales) of
             Inl e \<Rightarrow> Inl e
           | Inr (db', items_loaded) \<Rightarrow>
               Inr \<lparr>sales_db = db', sales_metrics = loaded sales_file items_loaded m'\<rparr>))"

section \<open>Names for the stages\<close>

text \<open>
  The rows of a file that the deduplication and the required-field filter leave, and what
  the transformation makes of one row: for a customer row and for a product row the
  source id and the values of its insert.
\<close>

definition surviving_customers :: "customer_row list \<Rightarrow> customer_row list" where
  "surviving_customers rows = filter (\<lambda>r. cr_email r \<noteq> None) (drop_duplicates_by cr_email rows)"

definition customer_insert :: "library \<Rightarrow> customer_row \<Rightarrow> string \<times> customer_values" where
  "customer_insert lib r =
     (cr_customer_id r,
      \<lparr>first_name = cr_first_name r, last_name = cr_last_name r, email = cr_email r,
       phone = clean_phone (lib_float_of_str lib) (cr_phone r), city = cr_city r,
       registration_date =
         map_option strftime_ymd (first_format (lib_timestamp_range lib) (cr_registration_date r))\<rparr>)"

definition surviving_products :: "product_row list \<Rightarrow> product_row list" where
  "surviving_products rows = filter (\<lambda>r. pr_price r \<noteq> None) (drop_duplicates_by pr_product_id rows)"

definition product_insert :: "library \<Rightarrow> product_row \<Rightarrow> string \<times> product_values" where
  "product_insert lib r =
     (pr_product_id r,
      \<lparr>product_name = pr_product_name r,
       category = map_option title (astype_str lib (pr_category r)),
       price = pr_price r, stock_quantity = fillna0 (pr_stock_quantity r)\<rparr>)"

text \<open>
  Two intermediate frames of \<open>transform_sales\<close>: the deduplicated rows with their
  resolved keys, and a frame with its \<open>transaction_date\<close> column normalized.
\<close>

definition resolved :: "(string \<rightharpoonup> nat) \<Rightarrow> (string \<rightharpoonup> nat) \<Rightarrow> 'k sales_row list \<Rightarrow> 'k sale list" where
  "resolved cm pm rows = map (map_ids cm pm) (drop_duplicates_by (\<lambda>r. r) rows)"

definition dated :: "library \<Rightarrow> 'k sale list \<Rightarrow> 'k sale list" where
  "dated lib v =
     map (\<lambda>s. s\<lparr>transaction_date :=
                  map_option strftime_ymd (first_format (lib_timestamp_range lib) (transaction_date s))\<rparr>) v"

section \<open>Example inputs\<close>

text \<open>
  The library as the examples need it: \<open>float()\<close> is asked of no text, timestamps have
  nanosecond resolution, a missing text becomes the text \<open>nan\<close>, and the arithmetic is
  exact, as binary floating point is on the amounts of the examples.
\<close>

definition example_library :: library where
  "example_library =
     \<lparr>lib_float_of_str = (\<lambda>s. None), lib_timestamp_range = ns_range,
      lib_str_of_missing = Some ''nan'', lib_float_mul = (\<lambda>q p. of_int q * p),
      lib_float_sum = sum_list\<rparr>"

text \<open>
  Five customer rows: two with the same email, one without first name, two without email.
\<close>

definition example_customer_1 :: customer_row where
  "example_customer_1 =
     \<lparr>cr_customer_id = ''C1'', cr_first_name = Some ''Asha'', cr_last_name = Some ''Rao'',
      cr_email = Some ''a@x.com'', cr_phone = NA, cr_city = Some ''Pune'',
      cr_registration_date = Some ''15/01/2024''\<rparr>"

definition example_customer_2 :: customer_row where
  "example_customer_2 =
     \<lparr>cr_customer_id = ''C2'', cr_first_name = Some ''A.'', cr_last_name = Some ''Rao'',
      cr_email = Some ''a@x.com'', cr_phone = NA, cr_city = None,
      cr_registration_date = None\<rparr>"

definition example_customer_3 :: customer_row where
  "example_customer_3 =
     \<lparr>cr_customer_id = ''C3'', cr_first_name = None, cr_last_name = Some ''Iyer'',
      cr_email = Some ''b@x.com'', cr_phone = NA, cr_city = None,
      cr_registration_date = Some ''2024-02-01''\<rparr>"

definition example_customer_4 :: customer_row where
  "example_customer_4 =
     \<lparr>cr_customer_id = ''C4'', cr_first_name = Some ''Ravi'', cr_last_name = Some ''Nair'',
      cr_email = None, cr_phone = NA, cr_city = None, cr_registration_date = None\<rparr>"

definition example_customer_5 :: customer_row where
  "example_customer_5 =
     \<lparr>cr_customer_id = ''C5'', cr_first_name = Some ''Mira'', cr_last_name = Some ''Das'',
      cr_email = None, cr_phone = NA, cr_city = None, cr_registration_date = None\<rparr>"

definition example_customers :: "customer_row list" where
  "example_customers =
     [example_customer_1, example_customer_2, example_customer_3, example_customer_4,
      example_customer_5]"

text \<open>
  Three product rows: one without stock quantity, one that repeats its product id, one
  without price. A fourth row has no name.
\<close>

definition example_product_1 :: product_row where
  "example_product_1 =
     \<lparr>pr_product_id = ''P1'', pr_product_name = Some ''Pen'', pr_category = Some ''office'',
      pr_price = Some (1999 / 100), pr_stock_quantity = None\<rparr>"

definition example_product_2 :: product_row where
  "example_product_2 =
     \<lparr>pr_product_id = ''P1'', pr_product_name = Some ''Pen'', pr_category = Some ''office'',
      pr_price = Some 5, pr_stock_quantity = None\<rparr>"

definition example_product_3 :: product_row where
  "example_product_3 =
     \<lparr>pr_product_id = ''P3'', pr_product_name = Some ''Ink'', pr_category = Some ''office'',
      pr_price = None, pr_stock_quantity = Some 4\<rparr>"

definition example_product_4 :: product_row where
  "example_product_4 =
     \<lparr>pr_product_id = ''P4'', pr_product_name = None, pr_category = Some ''office'',
      pr_price = Some 2, pr_stock_quantity = Some 1\<rparr>"

definition example_products :: "product_row list" where
  "example_products = [example_product_1, example_product_2, example_product_3]"

section \<open>The date normalizer\<close>

lemma digit_index:
  "k < 10 \<Longrightarrow> k = 0 \<or> k = 1 \<or> k = 2 \<or> k = 3 \<or> k = 4 \<or> k = 5 \<or> k = 6 \<or> k = 7 \<or> k = 8 \<or> k = (9::nat)"
  by arith

lemma digit_char_cases: "digit_char n \<in> set ''0123456789''"
proof -
  have "n mod 10 < 10" by simp
  then have "''0123456789'' ! (n mod 10) \<in> set ''0123456789''"
    by (intro nth_mem) simp
  then show ?thesis by (simp only: digit_char_def)
qed

lemma is_digit_digit_char [simp]: "is_digit (digit_char n)"
  using digit_char_cases by (simp only: is_digit_def)

lemma digit_char_not_sep [simp]: "digit_char n \<noteq> CHR ''-''" "digit_char n \<noteq> CHR ''/''"
  using digit_char_cases [of n] by auto

lemma digit_char_mod [simp]: "digit_char (n mod 10) = digit_char n"
  by (simp add: digit_char_def)

lemma digit_val_digit_char [simp]: "digit_val (digit_char n) = n mod 10"
proof -
  have "n mod 10 < 10" by simp
  from digit_index [OF this] show ?thesis
    by (auto simp: digit_char_def digit_val_def)
qed

lemma horner4:
  fixes n :: nat
  shows "A = a \<Longrightarrow> q2 = 10 * a + r2 \<Longrightarrow> q1 = 10 * q2 + r1 \<Longrightarrow> n = 10 * q1 + r0 \<Longrightarrow>
    10 * (10 * (10 * A + r2) + r1) + r0 = n"
  by simp

lemma nat_of_digits4:
  assumes "n < 10000"
  shows "nat_of_digits [digit_char (n div 1000), digit_char (n div 100), digit_char (n div 10), digit_char n] = n"
proof -
  have a: "n div 1000 mod 10 = n div 1000" using assms by simp
  have b: "n div 100 = 10 * (n div 1000) + n div 100 mod 10"
    using div_mult_mod_eq [of "n div 100" 10] by (simp add: div_mult2_eq [symmetric])
  have c: "n div 10 = 10 * (n div 100) + n div 10 mod 10"
    using div_mult_mod_eq [of "n div 10" 10] by (simp add: div_mult2_eq [symmetric])
  have d: "n = 10 * (n div 10) + n mod 10" by simp
  have "10 * (10 * (10 * (n div 1000 mod 10) + n div 100 mod 10) + n div 10 mod 10) + n mod 10 = n"
    by (rule horner4 [OF a b c d])
  then show ?thesis using a by (simp add: nat_of_digits_def)
qed

lemma nat_of_digits2:
  assumes "n < 100"
  shows "nat_of_digits [digit_char (n div 10), digit_char n] = n"
  using assms by (simp add: nat_of_digits_def)

text \<open>A year from 1000 on is written with its four digits.\<close>

lemma digits_of_nat_four:
  assumes "1000 \<le> n" and "n < 10000"
  shows "digits_of_nat n =
    [digit_char (n div 1000), digit_char (n div 100), digit_char (n div 10), digit_char n]"
proof -
  from assms have k: "n div 1000 < 10" "\<not> n div 100 < 10" "\<not> n div 10 < 10" "\<not> n < 10"
    by arith+
  have q: "n div 100 div 10 = n div 1000" "n div 10 div 10 = n div 100"
    by (simp_all add: div_mult2_eq [symmetric])
  have a: "digits_of_nat (n div 1000) = [digit_char (n div 1000)]"
    using k(1) by (subst digits_of_nat.simps) simp
  have b: "digits_of_nat (n div 100) = digits_of_nat (n div 1000) @ [digit_char (n div 100)]"
    using k(2) by (subst digits_of_nat.simps) (simp add: q)
  have c: "digits_of_nat (n div 10) = digits_of_nat (n div 100) @ [digit_char (n div 10)]"
    using k(3) by (subst digits_of_nat.simps) (simp add: q)
  have d: "digits_of_nat n = digits_of_nat (n div 10) @ [digit_char n]"
    using k(4) by (subst digits_of_nat.simps) simp
  show ?thesis by (simp add: a b c d)
qed

lemma days_in_month_le: "days_in_month y m \<le> 31"
  by (simp add: days_in_month_def)

lemma valid_date_calendar_day: "valid_date d \<Longrightarrow> calendar_day d"
  by (simp add: valid_date_def calendar_day_def)

lemma valid_date_iff: "valid_date d \<longleftrightarrow> calendar_day d \<and> 1 \<le> year d"
  by (auto simp: valid_date_def calendar_day_def)

text \<open>The first format reads back what \<open>strftime('%Y-%m-%d')\<close> writes for a four-digit year.\<close>

lemma strptime_strftime:
  assumes "valid_date d" and "1000 \<le> year d"
  shows "strptime Fmt_Ymd_hyphen (strftime_ymd d) = Some d"
proof -
  from assms have y: "year d < 10000" and m: "month d < 100" and dd: "day d < 100"
    using days_in_month_le [of "year d" "month d"] by (auto simp: valid_date_def)
  have st: "strftime_ymd d =
      [digit_char (year d div 1000), digit_char (year d div 100), digit_char (year d div 10),
       digit_char (year d), CHR ''-'', digit_char (month d div 10), digit_char (month d),
       CHR ''-'', digit_char (day d div 10), digit_char (day d)]"
    by (simp add: strftime_ymd_def digits_of_nat_four [OF assms(2) y])
  have sp: "split_on CHR ''-'' (strftime_ymd d) =
      [[digit_char (year d div 1000), digit_char (year d div 100), digit_char (year d div 10), digit_char (year d)],
       [digit_char (month d div 10), digit_char (month d)],
       [digit_char (day d div 10), digit_char (day d)]]"
    by (simp add: st)
  have yf: "year_field [digit_char (year d div 1000), digit_char (year d div 100), digit_char (year d div 10), digit_char (year d)] = Some (year d)"
    by (simp add: year_field_def nat_of_digits4 [OF y])
  have mf: "short_field [digit_char (month d div 10), digit_char (month d)] = Some (month d)"
    by (simp add: short_field_def nat_of_digits2 [OF m])
  have df: "short_field [digit_char (day d div 10), digit_char (day d)] = Some (day d)"
    by (simp add: short_field_def nat_of_digits2 [OF dd])
  show ?thesis
    using valid_date_calendar_day [OF assms(1)] by (simp add: sp yf mf df mk_date_def)
qed

text \<open>One masked retry, entry by entry.\<close>

lemma fill_step:
  "setitem_mask (map f xs) (isna_series (map f xs))
     (to_datetime r g (getitem_mask xs (isna_series (map f xs))))
   = map (\<lambda>x. case f x of None \<Rightarrow> (case x of None \<Rightarrow> None | Some s \<Rightarrow> attempt r g s) | Some d \<Rightarrow> Some d) xs"
  by (induction xs) (simp_all add: isna_series_def to_datetime_def split: option.splits)

lemma clean_date_series_unfold:
  "clean_date_series r series = dt_date (map (first_format r) series)"
proof -
  have a: "to_datetime r Fmt_Ymd_hyphen series
      = map (\<lambda>x. case x of None \<Rightarrow> None | Some s \<Rightarrow> attempt r Fmt_Ymd_hyphen s) series"
    by (simp add: to_datetime_def)
  show ?thesis
    unfolding clean_date_series_def Let_def a fill_step
    by (rule arg_cong [where f = dt_date], rule map_cong)
      (simp_all add: first_format_def split: option.splits)
qed

lemma mk_date_calendar_day: "mk_date y m d = Some x \<Longrightarrow> calendar_day x"
  by (auto simp: mk_date_def split: option.splits if_splits)

lemma strptime_calendar_day: "strptime f s = Some d \<Longrightarrow> calendar_day d"
proof (cases f)
  case Fmt_Ymd_hyphen
  assume "strptime f s = Some d"
  then obtain a b c where "mk_date a b c = Some d"
    unfolding Fmt_Ymd_hyphen strptime.simps
    by (cases "split_on CHR ''-'' s" rule: list.exhaust) (auto split: list.splits)
  then show ?thesis by (rule mk_date_calendar_day)
next
  case Fmt_dmY_slash
  assume "strptime f s = Some d"
  then obtain a b c where "mk_date a b c = Some d"
    unfolding Fmt_dmY_slash strptime.simps
    by (cases "split_on CHR ''/'' s" rule: list.exhaust) (auto split: list.splits)
  then show ?thesis by (rule mk_date_calendar_day)
next
  case Fmt_mdY_hyphen
  assume "strptime f s = Some d"
  then obtain a b c where "mk_date a b c = Some d"
    unfolding Fmt_mdY_hyphen strptime.simps
    by (cases "split_on CHR ''-'' s" rule: list.exhaust) (auto split: list.splits)
  then show ?thesis by (rule mk_date_calendar_day)
next
  case Fmt_mdY_slash
  assume "strptime f s = Some d"
  then obtain a b c where "mk_date a b c = Some d"
    unfolding Fmt_mdY_slash strptime.simps
    by (cases "split_on CHR ''/'' s" rule: list.exhaust) (auto split: list.splits)
  then show ?thesis by (rule mk_date_calendar_day)
qed

lemma attempt_Some:
  "attempt r f s = Some d \<Longrightarrow> strptime f s = Some d \<and> r d \<and> calendar_day d"
  by (auto simp: attempt_def simp del: strptime.simps split: option.splits if_splits
      dest: strptime_calendar_day)

lemma first_format_None:
  "first_format r (Some s) = None \<Longrightarrow> attempt r f s = None"
  by (cases f) (auto simp: first_format_def split: option.splits)

lemma first_format_Some:
  "first_format r x = Some d \<Longrightarrow> \<exists>s f. x = Some s \<and> attempt r f s = Some d"
  by (auto simp: first_format_def split: option.splits)

lemma first_format_calendar_day: "first_format r x = Some d \<Longrightarrow> calendar_day d \<and> r d"
  using first_format_Some [of r x d] attempt_Some by blast

lemma dt_date_Inr: "dt_date dates = Inr ds \<Longrightarrow> ds = dates"
  by (simp add: dt_date_def split: if_splits)

lemma dt_date_cases:
  "dt_date dates = (if \<exists>d. Some d \<in> set dates \<and> \<not> (1 \<le> year d \<and> year d \<le> 9999)
                    then Inl ValueError else Inr dates)"
  by (auto simp: dt_date_def list_all_iff split: option.splits)

text \<open>
  What \<open>clean_date_series\<close> returns when it returns: the outcome of the four attempts for
  every entry, in order, each a valid date or null, and null only where no format gives a
  timestamp.
\<close>

lemma clean_date_series_result:
  assumes "clean_date_series r series = Inr dates"
  shows "dates = map (first_format r) series"
    and "length dates = length series"
    and "i < length series \<Longrightarrow> dates ! i = Some d \<Longrightarrow>
         valid_date d \<and> (\<exists>s f. series ! i = Some s \<and> strptime f s = Some d)"
    and "i < length series \<Longrightarrow> dates ! i = None \<Longrightarrow> series ! i = Some s \<Longrightarrow> attempt r f s = None"
proof -
  from assms have dt: "dt_date (map (first_format r) series) = Inr dates"
    by (simp add: clean_date_series_unfold)
  then show eq: "dates = map (first_format r) series"
    by (rule dt_date_Inr)
  then show "length dates = length series" by simp
  show "valid_date d \<and> (\<exists>s f. series ! i = Some s \<and> strptime f s = Some d)"
    if i: "i < length series" and d: "dates ! i = Some d"
  proof -
    from i d eq have ff: "first_format r (series ! i) = Some d" by simp
    then have "Some d \<in> set (map (first_format r) series)"
      using i by (metis length_map nth_map nth_mem)
    with dt have "1 \<le> year d"
      by (auto simp: dt_date_cases split: if_splits)
    moreover from first_format_calendar_day [OF ff] have "calendar_day d" by simp
    moreover from first_format_Some [OF ff] attempt_Some
    have "\<exists>s f. series ! i = Some s \<and> strptime f s = Some d" by blast
    ultimately show ?thesis by (simp add: valid_date_iff)
  qed
  show "attempt r f s = None"
    if i: "i < length series" and n: "dates ! i = None" and s: "series ! i = Some s"
  proof -
    from i n eq s have "first_format r (Some s) = None" by simp
    then show ?thesis by (rule first_format_None)
  qed
qed

text \<open>
  It returns unless some entry is read as a day of the year 0; so it always returns when
  the timestamp range has no such day, as the nanosecond range has not.
\<close>

lemma clean_date_series_returns:
  assumes "\<forall>x \<in> set series. \<forall>d. first_format r x = Some d \<longrightarrow> 1 \<le> year d"
  shows "clean_date_series r series = Inr (map (first_format r) series)"
proof -
  have "\<not> (\<exists>d. Some d \<in> set (map (first_format r) series) \<and> \<not> (1 \<le> year d \<and> year d \<le> 9999))"
  proof
    assume "\<exists>d. Some d \<in> set (map (first_format r) series) \<and> \<not> (1 \<le> year d \<and> year d \<le> 9999)"
    then obtain d where d: "Some d \<in> first_format r ` set series"
      and y: "\<not> (1 \<le> year d \<and> year d \<le> 9999)"
      by auto
    from d obtain x where x: "x \<in> set series" "first_format r x = Some d"
      by (metis imageE)
    from first_format_calendar_day [OF x(2)] have "year d \<le> 9999"
      by (simp add: calendar_day_def)
    with assms x y show False by blast
  qed
  then show ?thesis
    by (simp add: clean_date_series_unfold dt_date_cases)
qed

lemma clean_date_series_returns_in_range:
  assumes "\<forall>d. r d \<longrightarrow> 1 \<le> year d"
  shows "clean_date_series r series = Inr (map (first_format r) series)"
  using assms first_format_calendar_day by (intro clean_date_series_returns) blast

lemma ns_range_year: "ns_range d \<Longrightarrow> 1 \<le> year d"
  by (auto simp: ns_range_def date_le_def)

lemma clean_date_series_raises:
  assumes "x \<in> set series" and "first_format r x = Some d" and "year d = 0"
  shows "clean_date_series r series = Inl ValueError"
proof -
  from assms(1,2) have "Some d \<in> set (map (first_format r) series)"
    by force
  with assms(3) show ?thesis
    by (auto simp: clean_date_series_unfold dt_date_cases)
qed

lemmas date_eval = attempt_def year_field_def short_field_def is_digit_def nat_of_digits_def
  digit_val_def mk_date_def calendar_day_def days_in_month_def leap_year_def

text \<open>
  Claim C5. The date normalizer returns a sequence of the same length and order whose
  entries are valid dates or null, null where all four formats fail (lemma
  \<open>clean_date_series_result\<close>), and it returns for every input when the timestamp range
  has no day of the year 0 (lemma \<open>clean_date_series_returns_in_range\<close>). It does throw
  where the range has such days, as it has with the library's resolutions coarser than
  nanoseconds: the string \<open>0000-01-01\<close> parses under the first format, and the final
  conversion to Python dates raises \<open>ValueError\<close> for the whole series.
\<close>

theorem clean_date_series_year_zero:
  "strptime Fmt_Ymd_hyphen ''0000-01-01'' = Some (Date 0 1 1) \<and>
   clean_date_series unbounded_range [Some ''2024-01-15'', Some ''0000-01-01''] = Inl ValueError"
proof -
  have p: "strptime Fmt_Ymd_hyphen ''0000-01-01'' = Some (Date 0 1 1)"
    by (simp add: date_eval)
  then have "first_format unbounded_range (Some ''0000-01-01'') = Some (Date 0 1 1)"
    by (simp add: first_format_def attempt_def unbounded_range_def del: strptime.simps)
  then have "clean_date_series unbounded_range [Some ''2024-01-15'', Some ''0000-01-01''] = Inl ValueError"
    by (rule clean_date_series_raises [rotated]) simp_all
  with p show ?thesis by simp
qed

text \<open>
  Claim C6, as amended. Normalizing already-normalized dates returns the same dates,
  within the timestamp range: for every sequence of valid calendar dates with four-digit
  years that the library's timestamp type can hold, written in the year-month-day form
  that the pipeline itself produces with \<open>strftime('%Y-%m-%d')\<close>, the date normalizer
  returns exactly those dates, in order.
\<close>

theorem clean_date_series_idempotent:
  assumes "\<forall>d \<in> set ds. valid_date d \<and> 1000 \<le> year d \<and> in_range d"
  shows "clean_date_series in_range (map (\<lambda>d. Some (strftime_ymd d)) ds) = Inr (map Some ds)"
proof -
  have ff: "first_format in_range (Some (strftime_ymd d)) = Some d"
    if "valid_date d" "1000 \<le> year d" "in_range d" for d
    using strptime_strftime [OF that(1,2)] that(3)
    by (simp add: first_format_def attempt_def del: strptime.simps)
  have m: "map (first_format in_range) (map (\<lambda>d. Some (strftime_ymd d)) ds) = map Some ds"
    using assms ff by simp
  have "\<forall>x \<in> set (map (\<lambda>d. Some (strftime_ymd d)) ds). \<forall>d. first_format in_range x = Some d \<longrightarrow> 1 \<le> year d"
    using assms ff by auto
  from clean_date_series_returns [OF this] show ?thesis
    by (simp only: m)
qed

theorem clean_date_series_idempotent_witness:
  "valid_date (Date 2024 2 29) \<and> ns_range (Date 2024 2 29) \<and>
   valid_date (Date 1999 12 31) \<and> ns_range (Date 1999 12 31) \<and>
   map (\<lambda>d. Some (strftime_ymd d)) [Date 2024 2 29, Date 1999 12 31]
     = [Some ''2024-02-29'', Some ''1999-12-31''] \<and>
   clean_date_series ns_range [Some ''2024-02-29'', Some ''1999-12-31'']
     = Inr [Some (Date 2024 2 29), Some (Date 1999 12 31)]"
proof -
  have v: "\<forall>d \<in> set [Date 2024 2 29, Date 1999 12 31]. valid_date d \<and> 1000 \<le> year d \<and> ns_range d"
    by (simp add: valid_date_def days_in_month_def leap_year_def ns_range_def date_le_def)
  have s: "map (\<lambda>d. Some (strftime_ymd d)) [Date 2024 2 29, Date 1999 12 31]
     = [Some ''2024-02-29'', Some ''1999-12-31'']"
    by (simp add: strftime_ymd_def digits_of_nat_four digit_char_def)
  show ?thesis
    using clean_date_series_idempotent [OF v] v s by simp
qed

text \<open>
  Claim C6 as stated fails outside the timestamp range: with nanosecond resolution the
  normalized string of the valid date 1600-01-01 is read by the first format, the day is
  out of range, and the result is null.
\<close>

theorem clean_date_series_out_of_range:
  "valid_date (Date 1600 1 1) \<and> strftime_ymd (Date 1600 1 1) = ''1600-01-01'' \<and>
   strptime Fmt_Ymd_hyphen ''1600-01-01'' = Some (Date 1600 1 1) \<and>
   clean_date_series ns_range [Some ''1600-01-01''] = Inr [None]"
proof -
  have v: "valid_date (Date 1600 1 1)"
    by (simp add: valid_date_def days_in_month_def)
  have s: "strftime_ymd (Date 1600 1 1) = ''1600-01-01''"
    by (simp add: strftime_ymd_def digits_of_nat_four digit_char_def)
  have p: "strptime Fmt_Ymd_hyphen ''1600-01-01'' = Some (Date 1600 1 1)"
    by (simp add: date_eval)
  have f: "first_format ns_range (Some ''1600-01-01'') = None"
    by (simp add: first_format_def date_eval ns_range_def date_le_def)
  have "clean_date_series ns_range [Some ''1600-01-01''] = Inr (map (first_format ns_range) [Some ''1600-01-01''])"
    by (rule clean_date_series_returns_in_range) (use ns_range_year in blast)
  with v s p f show ?thesis by simp
qed

section \<open>The phone normalizer\<close>

lemma digits_of_nat_digits: "list_all is_digit (digits_of_nat n)"
proof (induction n rule: digits_of_nat.induct)
  case (1 n)
  show ?case using 1 by (subst digits_of_nat.simps) simp
qed

lemma clean_phone_missing: "isna v \<Longrightarrow> clean_phone float_of_str v = None"
  by (simp add: clean_phone_def)

lemma clean_phone_float_fails:
  "py_float float_of_str v = Inl e \<Longrightarrow> clean_phone float_of_str v = None"
  by (simp add: clean_phone_def)

lemma clean_phone_int_fails:
  "py_float float_of_str v = Inr x \<Longrightarrow> py_int x = Inl e \<Longrightarrow>
   clean_phone float_of_str v = None"
  by (simp add: clean_phone_def)

lemma clean_phone_too_short:
  "py_float float_of_str v = Inr x \<Longrightarrow> py_int x = Inr n \<Longrightarrow> length (py_str_int n) < 10 \<Longrightarrow>
   clean_phone float_of_str v = None"
  by (simp add: clean_phone_def)

text \<open>
  On every value that converts to an integer which is not negative, the result is null or
  of the documented format.
\<close>

lemma clean_phone_nonnegative:
  assumes "py_float float_of_str v = Inr x" and "py_int x = Inr n" and "0 \<le> n"
    and "clean_phone float_of_str v = Some s"
  shows "canonical_phone s"
proof -
  let ?d = "digits_of_nat (nat n)"
  have str: "py_str_int n = ?d"
    using assms(3) by (simp add: py_str_int_def)
  from assms have len: "10 \<le> length ?d" and s: "s = ''+91-'' @ drop (length ?d - 10) ?d"
    by (auto simp: clean_phone_def str Let_def split: if_splits)
  have "list_all is_digit (drop (length ?d - 10) ?d)"
    using digits_of_nat_digits [of "nat n"] by (auto simp: list_all_iff dest: in_set_dropD)
  with len show ?thesis
    by (simp add: canonical_phone_def s)
qed

text \<open>
  Claim C2. The phone normalizer returns null on a missing value, on a failed conversion
  and on a decimal string shorter than ten characters, and on a value that is not negative
  a result of the form \<open>+91-\<close> and ten digits (the lemmas above). It does not on every
  value: the minus sign of a negative number counts as one of the ten characters, so the
  number \<open>-123456789\<close> gives \<open>+91--123456789\<close>, which is not \<open>+91-\<close> and ten digits.
\<close>

theorem clean_phone_negative_number:
  "clean_phone float_of_str (Num (Finite (- 123456789))) = Some ''+91--123456789'' \<and>
   \<not> canonical_phone ''+91--123456789''"
proof -
  have a: "clean_phone float_of_str (Num (Finite (- 123456789))) = Some ''+91--123456789''"
    by (simp add: clean_phone_def isna_def py_str_int_def digits_of_nat.simps digit_char_def)
  have b: "\<not> canonical_phone ''+91--123456789''"
    by (simp add: canonical_phone_def is_digit_def)
  from a b show ?thesis by simp
qed


section \<open>Deduplication\<close>


lemma image_drop_duplicates_by: "key ` set (drop_duplicates_by key xs) = key ` set xs"
proof (induction key xs rule: drop_duplicates_by.induct)
  case (1 key)
  then show ?case by simp
next
  case (2 key x xs)
  have "key ` set (filter (\<lambda>y. key y \<noteq> key x) xs) = key ` set xs - {key x}"
    by auto
  with 2 show ?case by auto
qed

lemma distinct_drop_duplicates_by: "distinct (map key (drop_duplicates_by key xs))"
proof (induction key xs rule: drop_duplicates_by.induct)
  case (1 key)
  then show ?case by simp
next
  case (2 key x xs)
  have "key x \<notin> key ` set (drop_duplicates_by key (filter (\<lambda>y. key y \<noteq> key x) xs))"
    unfolding image_drop_duplicates_by by auto
  with 2 show ?case by simp
qed

lemma length_drop_duplicates_by: "length (drop_duplicates_by key xs) = card (key ` set xs)"
proof -
  have "length (drop_duplicates_by key xs) = length (map key (drop_duplicates_by key xs))"
    by simp
  also have "\<dots> = card (set (map key (drop_duplicates_by key xs)))"
    by (rule distinct_card [symmetric]) (rule distinct_drop_duplicates_by)
  also have "\<dots> = card (key ` set xs)"
    by (simp add: image_drop_duplicates_by)
  finally show ?thesis .
qed

lemma length_drop_duplicates_by_le: "length (drop_duplicates_by key xs) \<le> length xs"
  unfolding length_drop_duplicates_by by (metis card_image_le card_length le_trans List.finite_set)

lemma count_missing_drop_duplicates_by:
  "count_missing (map key (drop_duplicates_by key xs)) = (if None \<in> key ` set xs then 1 else 0)"
proof -
  let ?ys = "map key (drop_duplicates_by key xs)"
  have d: "distinct ?ys" by (rule distinct_drop_duplicates_by)
  have s: "set ?ys = key ` set xs" by (simp add: image_drop_duplicates_by)
  have "length (filter (\<lambda>x. x = None) ?ys) = card ({x. x = None} \<inter> set ?ys)"
    by (rule distinct_length_filter [OF d])
  also have "\<dots> = (if None \<in> key ` set xs then 1 else 0)"
    unfolding s by auto
  finally show ?thesis by (simp add: count_missing_def)
qed

lemma count_missing_filter:
  "count_missing (map f xs) + int (length (filter (\<lambda>r. f r \<noteq> None) xs)) = int (length xs)"
  unfolding count_missing_def by (induction xs) auto



section \<open>The customer loader: the frame and the metrics\<close>

lemmas metrics_defs = read_def dup_def filled_def loaded_def dropped_def increment_def

lemma date_strings_first_format:
  "date_strings (map (first_format r) xs) = map (\<lambda>x. map_option strftime_ymd (first_format r x)) xs"
  by (simp add: date_strings_def)

lemma zip3_map:
  "zip xs (zip (map g xs) (map h xs)) = map (\<lambda>x. (x, g x, h x)) xs"
  by (induction xs) auto

lemma transform_customers_Inr:
  assumes "transform_customers lib rows m = Inr (df, m')"
  shows "df = map (customer_insert lib) (surviving_customers rows)"
    and "clean_date_series (lib_timestamp_range lib) (map cr_registration_date (surviving_customers rows))
          = Inr (map (first_format (lib_timestamp_range lib)) (map cr_registration_date (surviving_customers rows)))"
    and "metrics m' customers_file ''records_read''
           = metrics m customers_file ''records_read'' + int (length rows)"
    and "metrics m' customers_file ''duplicates_removed''
           = metrics m customers_file ''duplicates_removed''
             + (int (length rows) - int (length (drop_duplicates_by cr_email rows)))"
    and "metrics m' customers_file ''rows_dropped''
           = metrics m customers_file ''rows_dropped''
             + count_missing (map cr_email (drop_duplicates_by cr_email rows))"
    and "metrics m' customers_file ''records_loaded'' = metrics m customers_file ''records_loaded''"
    and "drop_reasons m' customers_file ''missing_email''
           = drop_reasons m customers_file ''missing_email''
             + count_missing (map cr_email (drop_duplicates_by cr_email rows))"
proof -
  let ?S = "surviving_customers rows"
  let ?r = "lib_timestamp_range lib"
  from assms obtain ds where cd: "clean_date_series ?r (map cr_registration_date ?S) = Inr ds"
    by (auto simp: transform_customers_def Let_def surviving_customers_def split: sum.splits)
  from clean_date_series_result(1) [OF cd]
  have ds: "ds = map (first_format ?r) (map cr_registration_date ?S)" .
  show "clean_date_series ?r (map cr_registration_date ?S)
          = Inr (map (first_format ?r) (map cr_registration_date ?S))"
    using cd ds by simp
  have cd': "clean_date_series ?r (map cr_registration_date (filter (\<lambda>r. cr_email r \<noteq> None) (drop_duplicates_by cr_email rows))) = Inr ds"
    using cd by (simp add: surviving_customers_def)
  note t = assms [unfolded transform_customers_def Let_def cd' sum.case]
  have ci: "customer_insert lib = (\<lambda>r. (cr_customer_id r,
      \<lparr>first_name = cr_first_name r, last_name = cr_last_name r, email = cr_email r,
       phone = clean_phone (lib_float_of_str lib) (cr_phone r), city = cr_city r,
       registration_date =
         map_option strftime_ymd (first_format (lib_timestamp_range lib) (cr_registration_date r))\<rparr>))"
    by (rule ext) (simp add: customer_insert_def)
  from t show "df = map (customer_insert lib) ?S"
    unfolding ds ci
    by (auto simp: date_strings_def zip3_map surviving_customers_def o_def
        split: if_splits simp del: not_None_eq)
  from t show "metrics m' customers_file ''records_read''
           = metrics m customers_file ''records_read'' + int (length rows)"
    by (auto simp: metrics_defs split: if_splits)
  from t show "metrics m' customers_file ''duplicates_removed''
           = metrics m customers_file ''duplicates_removed''
             + (int (length rows) - int (length (drop_duplicates_by cr_email rows)))"
    by (auto simp: metrics_defs split: if_splits)
  from t show "metrics m' customers_file ''rows_dropped''
           = metrics m customers_file ''rows_dropped''
             + count_missing (map cr_email (drop_duplicates_by cr_email rows))"
    by (auto simp: metrics_defs split: if_splits)
  from t show "metrics m' customers_file ''records_loaded'' = metrics m customers_file ''records_loaded''"
    by (auto simp: metrics_defs split: if_splits)
  from t show "drop_reasons m' customers_file ''missing_email''
           = drop_reasons m customers_file ''missing_email''
             + count_missing (map cr_email (drop_duplicates_by cr_email rows))"
    by (auto simp: metrics_defs split: if_splits)
qed

lemma transform_customers_returns:
  assumes "clean_date_series (lib_timestamp_range lib) (map cr_registration_date (surviving_customers rows)) = Inr ds"
  shows "\<exists>m'. transform_customers lib rows m = Inr (map (customer_insert lib) (surviving_customers rows), m')"
proof -
  have cd': "clean_date_series (lib_timestamp_range lib) (map cr_registration_date (filter (\<lambda>r. cr_email r \<noteq> None) (drop_duplicates_by cr_email rows))) = Inr ds"
    using assms by (simp add: surviving_customers_def)
  have "\<exists>df m'. transform_customers lib rows m = Inr (df, m')"
    unfolding transform_customers_def Let_def cd' sum.case by simp
  then obtain df m' where t: "transform_customers lib rows m = Inr (df, m')" by blast
  from transform_customers_Inr(1) [OF t] t show ?thesis by blast
qed

lemma transform_customers_raises:
  assumes "clean_date_series (lib_timestamp_range lib) (map cr_registration_date (surviving_customers rows)) = Inl e"
  shows "transform_customers lib rows m = Inl (Python e)"
proof -
  have cd': "clean_date_series (lib_timestamp_range lib) (map cr_registration_date (filter (\<lambda>r. cr_email r \<noteq> None) (drop_duplicates_by cr_email rows))) = Inl e"
    using assms by (simp add: surviving_customers_def)
  show ?thesis
    unfolding transform_customers_def Let_def cd' sum.case by simp
qed

lemma insert_customer_cases:
  "insert_customer v db =
     (case customer_values_error v of
        Some e \<Rightarrow> Inl (e, db)
      | None \<Rightarrow>
          if map_option collate (email v) \<in> set (stored_emails db)
          then Inl (DuplicateEntry ''email'', db\<lparr>customers_auto := Suc (customers_auto db)\<rparr>)
          else Inr (Suc (customers_auto db),
                    db\<lparr>customers := customers db @ [(Suc (customers_auto db), v)],
                       customers_auto := Suc (customers_auto db)\<rparr>))"
  by (simp add: insert_customer_def Let_def split: option.splits)

lemma load_customer_other_metrics:
  "file \<noteq> customers_file \<or> key \<noteq> ''records_loaded'' \<Longrightarrow>
   metrics (cs_metrics (load_customer st row)) file key = metrics (cs_metrics st) file key"
  by (auto simp: load_customer_def metrics_defs insert_customer_cases split: sum.splits option.splits prod.splits)

lemma load_customer_drop_reasons:
  "drop_reasons (cs_metrics (load_customer st row)) = drop_reasons (cs_metrics st)"
  by (auto simp: load_customer_def metrics_defs insert_customer_cases split: sum.splits option.splits prod.splits)

lemma load_customer_loaded:
  "metrics (cs_metrics st) customers_file ''records_loaded''
     \<le> metrics (cs_metrics (load_customer st row)) customers_file ''records_loaded'' \<and>
   metrics (cs_metrics (load_customer st row)) customers_file ''records_loaded''
     \<le> metrics (cs_metrics st) customers_file ''records_loaded'' + 1"
  by (auto simp: load_customer_def metrics_defs insert_customer_cases split: sum.splits option.splits prod.splits)

lemma load_customers_other_metrics:
  "file \<noteq> customers_file \<or> key \<noteq> ''records_loaded'' \<Longrightarrow>
   metrics (cs_metrics (load_customers st df)) file key = metrics (cs_metrics st) file key"
  by (induction df arbitrary: st) (simp_all add: load_customer_other_metrics)

lemma load_customers_drop_reasons:
  "drop_reasons (cs_metrics (load_customers st df)) = drop_reasons (cs_metrics st)"
  by (induction df arbitrary: st) (simp_all add: load_customer_drop_reasons)

lemma load_customers_loaded:
  "metrics (cs_metrics st) customers_file ''records_loaded''
     \<le> metrics (cs_metrics (load_customers st df)) customers_file ''records_loaded'' \<and>
   metrics (cs_metrics (load_customers st df)) customers_file ''records_loaded''
     \<le> metrics (cs_metrics st) customers_file ''records_loaded'' + int (length df)"
proof (induction df arbitrary: st)
  case Nil
  then show ?case by simp
next
  case (Cons row df)
  from Cons [of "load_customer st row"] load_customer_loaded [of st row]
  show ?case by simp
qed

lemma process_customers_Inr:
  assumes "process_customers lib rows db m = Inr st"
  shows "\<exists>m'. transform_customers lib rows m = Inr (map (customer_insert lib) (surviving_customers rows), m') \<and>
     st = load_customers \<lparr>cs_db = db, cs_id_map = Map.empty, cs_metrics = m', cs_log = []\<rparr>
            (map (customer_insert lib) (surviving_customers rows))"
proof -
  from assms obtain df m' where t: "transform_customers lib rows m = Inr (df, m')"
    and st: "st = load_customers \<lparr>cs_db = db, cs_id_map = Map.empty, cs_metrics = m', cs_log = []\<rparr> df"
    by (auto simp: process_customers_def split: sum.splits)
  from transform_customers_Inr(1) [OF t] t st show ?thesis by blast
qed

lemma process_customers_returns:
  assumes "clean_date_series (lib_timestamp_range lib) (map cr_registration_date (surviving_customers rows)) = Inr ds"
  shows "\<exists>st. process_customers lib rows db m = Inr st"
  using transform_customers_returns [OF assms, of m] by (auto simp: process_customers_def)

lemma process_customers_raises:
  assumes "clean_date_series (lib_timestamp_range lib) (map cr_registration_date (surviving_customers rows)) = Inl e"
  shows "process_customers lib rows db m = Inl (Python e)"
  using transform_customers_raises [OF assms, of m] by (simp add: process_customers_def)

lemma filter_key_drop_duplicates_by:
  "filter (\<lambda>r. key r = k) (drop_duplicates_by key xs) = take 1 (filter (\<lambda>r. key r = k) xs)"
proof (induction key xs rule: drop_duplicates_by.induct)
  case (1 key)
  then show ?case by simp
next
  case (2 key x xs)
  show ?case
  proof (cases "key x = k")
    case True
    have "filter (\<lambda>r. key r = k) (filter (\<lambda>y. key y \<noteq> key x) xs) = []"
      using True by (auto simp: filter_empty_conv)
    with 2 True show ?thesis by simp
  next
    case False
    have "filter (\<lambda>r. key r = k) (filter (\<lambda>y. key y \<noteq> key x) xs) = filter (\<lambda>r. key r = k) xs"
      using False by (auto intro: filter_cong)
    with 2 False show ?thesis by simp
  qed
qed


lemma example_library_range: "\<forall>d. lib_timestamp_range example_library d \<longrightarrow> 1 \<le> year d"
  using ns_range_year by (simp add: example_library_def)

lemma customer_defs:
  "cr_customer_id example_customer_1 = ''C1''" "cr_email example_customer_1 = Some ''a@x.com''"
  "cr_customer_id example_customer_2 = ''C2''" "cr_email example_customer_2 = Some ''a@x.com''"
  "cr_customer_id example_customer_3 = ''C3''" "cr_email example_customer_3 = Some ''b@x.com''"
  "cr_customer_id example_customer_4 = ''C4''" "cr_email example_customer_4 = None"
  "cr_customer_id example_customer_5 = ''C5''" "cr_email example_customer_5 = None"
  by (simp_all add: example_customer_1_def example_customer_2_def example_customer_3_def
      example_customer_4_def example_customer_5_def)

lemma example_customers_dedup:
  "drop_duplicates_by cr_email example_customers
     = [example_customer_1, example_customer_3, example_customer_4]"
  by (simp add: example_customers_def customer_defs)

lemma example_customers_surviving:
  "surviving_customers example_customers = [example_customer_1, example_customer_3]"
  by (simp add: surviving_customers_def example_customers_dedup customer_defs)

text \<open>
  Claim C10. Whatever the number of input rows without email, when the customer loader
  returns it has counted at most one row under the drop reason \<open>missing_email\<close> and in
  \<open>rows_dropped\<close>: exactly one when some row lacks an email, none otherwise.
  Deduplication by email treats the missing emails as one value: the duplicates removed
  are the rows minus the distinct email values (the missing value being one of them), of
  the rows without email only the first one survives deduplication, and that one is
  dropped: the frame that reaches the insert loop is made of the deduplicated rows that
  have an email, so no row in it is without email.
\<close>

theorem missing_email_dropped_once:
  assumes "process_customers lib rows db m = Inr st"
  shows "drop_reasons (cs_metrics st) customers_file ''missing_email''
       = drop_reasons m customers_file ''missing_email''
         + (if None \<in> cr_email ` set rows then 1 else 0) \<and>
     metrics (cs_metrics st) customers_file ''rows_dropped''
       = metrics m customers_file ''rows_dropped''
         + (if None \<in> cr_email ` set rows then 1 else 0) \<and>
     metrics (cs_metrics st) customers_file ''duplicates_removed''
       = metrics m customers_file ''duplicates_removed''
         + (int (length rows) - int (card (cr_email ` set rows))) \<and>
     filter (\<lambda>r. cr_email r = None) (drop_duplicates_by cr_email rows)
       = take 1 (filter (\<lambda>r. cr_email r = None) rows) \<and>
     (\<exists>m'. transform_customers lib rows m
         = Inr (map (customer_insert lib)
                  (filter (\<lambda>r. cr_email r \<noteq> None) (drop_duplicates_by cr_email rows)), m') \<and>
        st = load_customers \<lparr>cs_db = db, cs_id_map = Map.empty, cs_metrics = m', cs_log = []\<rparr>
               (map (customer_insert lib)
                  (filter (\<lambda>r. cr_email r \<noteq> None) (drop_duplicates_by cr_email rows)))) \<and>
     (\<forall>row \<in> set (map (customer_insert lib)
                     (filter (\<lambda>r. cr_email r \<noteq> None) (drop_duplicates_by cr_email rows))).
        email (snd row) \<noteq> None)"
proof -
  from process_customers_Inr [OF assms] obtain m' where
    t: "transform_customers lib rows m = Inr (map (customer_insert lib) (surviving_customers rows), m')"
    and st: "st = load_customers \<lparr>cs_db = db, cs_id_map = Map.empty, cs_metrics = m', cs_log = []\<rparr>
            (map (customer_insert lib) (surviving_customers rows))"
    by blast
  note tm = transform_customers_Inr [OF t]
  have a: "drop_reasons (cs_metrics st) customers_file ''missing_email''
       = drop_reasons m customers_file ''missing_email''
         + (if None \<in> cr_email ` set rows then 1 else 0)"
    unfolding st by (simp add: load_customers_drop_reasons tm(7) count_missing_drop_duplicates_by)
  have b: "metrics (cs_metrics st) customers_file ''rows_dropped''
       = metrics m customers_file ''rows_dropped''
         + (if None \<in> cr_email ` set rows then 1 else 0)"
    unfolding st by (simp add: load_customers_other_metrics tm(5) count_missing_drop_duplicates_by)
  have c: "metrics (cs_metrics st) customers_file ''duplicates_removed''
       = metrics m customers_file ''duplicates_removed''
         + (int (length rows) - int (card (cr_email ` set rows)))"
    unfolding st by (simp add: load_customers_other_metrics tm(4) length_drop_duplicates_by)
  have d: "filter (\<lambda>r. cr_email r = None) (drop_duplicates_by cr_email rows)
       = take 1 (filter (\<lambda>r. cr_email r = None) rows)"
    by (rule filter_key_drop_duplicates_by)
  have e: "\<forall>row \<in> set (map (customer_insert lib)
                     (filter (\<lambda>r. cr_email r \<noteq> None) (drop_duplicates_by cr_email rows))).
        email (snd row) \<noteq> None"
    by (auto simp: customer_insert_def)
  from t st have f: "\<exists>m'. transform_customers lib rows m
         = Inr (map (customer_insert lib)
                  (filter (\<lambda>r. cr_email r \<noteq> None) (drop_duplicates_by cr_email rows)), m') \<and>
        st = load_customers \<lparr>cs_db = db, cs_id_map = Map.empty, cs_metrics = m', cs_log = []\<rparr>
               (map (customer_insert lib)
                  (filter (\<lambda>r. cr_email r \<noteq> None) (drop_duplicates_by cr_email rows)))"
    unfolding surviving_customers_def by blast
  from a b c d e f show ?thesis by blast
qed

theorem missing_email_dropped_once_witness:
  "\<exists>st. process_customers example_library example_customers empty_database new_metrics = Inr st \<and>
     cr_email example_customer_4 = None \<and> cr_email example_customer_5 = None \<and>
     drop_reasons (cs_metrics st) customers_file ''missing_email'' = 1 \<and>
     metrics (cs_metrics st) customers_file ''rows_dropped'' = 1 \<and>
     metrics (cs_metrics st) customers_file ''duplicates_removed'' = 2 \<and>
     (\<exists>m'. transform_customers example_library example_customers new_metrics
         = Inr (map (customer_insert example_library) [example_customer_1, example_customer_3], m'))"
proof -
  have "clean_date_series (lib_timestamp_range example_library)
      (map cr_registration_date (surviving_customers example_customers))
    = Inr (map (first_format (lib_timestamp_range example_library))
        (map cr_registration_date (surviving_customers example_customers)))"
    by (rule clean_date_series_returns_in_range) (rule example_library_range)
  from process_customers_returns [OF this] obtain st where
    run: "process_customers example_library example_customers empty_database new_metrics = Inr st"
    by blast
  have n: "None \<in> cr_email ` set example_customers"
    by (simp add: example_customers_def customer_defs)
  have i: "cr_email ` set example_customers = {Some ''a@x.com'', Some ''b@x.com'', None}"
    by (auto simp: example_customers_def customer_defs)
  have k: "card (cr_email ` set example_customers) = 3" "length example_customers = 5"
    unfolding i by (simp_all add: example_customers_def)
  have f: "filter (\<lambda>r. cr_email r \<noteq> None) (drop_duplicates_by cr_email example_customers)
      = [example_customer_1, example_customer_3]"
    using example_customers_surviving by (simp add: surviving_customers_def)
  note t = missing_email_dropped_once [OF run, unfolded f]
  from t run n k show ?thesis
    by (auto simp: new_metrics_def customer_defs)
qed




















section \<open>The product loader's transformation\<close>

lemmas title_eval = title_def is_lower_def is_upper_def to_upper_def to_lower_def astype_str_def
  lower_letters_def upper_letters_def

lemma product_insert_sel:
  "fst (product_insert lib r) = pr_product_id r"
  "product_name (snd (product_insert lib r)) = pr_product_name r"
  "price (snd (product_insert lib r)) = pr_price r"
  "stock_quantity (snd (product_insert lib r)) = fillna0 (pr_stock_quantity r)"
  "category (snd (product_insert lib r)) = map_option title (astype_str lib (pr_category r))"
  by (simp_all add: product_insert_def)

lemma transform_products_frame:
  "fst (transform_products lib rows m) = map (product_insert lib) (surviving_products rows)"
proof -
  have pi: "product_insert lib = (\<lambda>r. (pr_product_id r,
      \<lparr>product_name = pr_product_name r,
       category = map_option title (astype_str lib (pr_category r)),
       price = pr_price r, stock_quantity = fillna0 (pr_stock_quantity r)\<rparr>))"
    by (rule ext) (simp add: product_insert_def)
  show ?thesis
    unfolding pi by (simp add: transform_products_def Let_def surviving_products_def filter_map o_def)
qed

lemma transform_products_metrics:
  "metrics (snd (transform_products lib rows m)) products_file ''records_read''
     = metrics m products_file ''records_read'' + int (length rows)"
  "metrics (snd (transform_products lib rows m)) products_file ''duplicates_removed''
     = metrics m products_file ''duplicates_removed''
       + (int (length rows) - int (length (drop_duplicates_by pr_product_id rows)))"
  "metrics (snd (transform_products lib rows m)) products_file ''rows_dropped''
     = metrics m products_file ''rows_dropped''
       + count_missing (map pr_price (drop_duplicates_by pr_product_id rows))"
  "metrics (snd (transform_products lib rows m)) products_file ''missing_values_filled''
     = metrics m products_file ''missing_values_filled''
       + count_missing (map pr_stock_quantity (drop_duplicates_by pr_product_id rows))"
  "metrics (snd (transform_products lib rows m)) products_file ''records_loaded''
     = metrics m products_file ''records_loaded''"
  "drop_reasons (snd (transform_products lib rows m)) products_file ''missing_price''
     = drop_reasons m products_file ''missing_price''
       + count_missing (map pr_price (drop_duplicates_by pr_product_id rows))"
  by (simp_all add: transform_products_def Let_def metrics_defs o_def)

lemma process_products_unfold:
  "process_products lib rows db m =
     load_products \<lparr>ps_db = db, ps_id_map = Map.empty, ps_metrics = snd (transform_products lib rows m)\<rparr>
       (map (product_insert lib) (surviving_products rows))"
proof (cases "transform_products lib rows m")
  case (Pair df m')
  with transform_products_frame [of lib rows m] show ?thesis
    by (simp add: process_products_def)
qed

section \<open>The product loader's inserts\<close>

lemma insert_product_ok:
  assumes "product_values_error v = None"
  shows "insert_product v db =
     Inr (Suc (products_auto db),
          db\<lparr>products := products db @ [(Suc (products_auto db), v)],
             products_auto := Suc (products_auto db)\<rparr>)"
  using assms by (simp add: insert_product_def)

lemma insert_product_error:
  assumes "product_values_error v = Some e"
  shows "insert_product v db = Inl e"
  using assms by (simp add: insert_product_def)

lemma insert_product_Inr:
  assumes "insert_product v db = Inr (k, db')"
  shows "k = Suc (products_auto db) \<and>
     db' = db\<lparr>products := products db @ [(Suc (products_auto db), v)],
             products_auto := Suc (products_auto db)\<rparr> \<and>
     product_values_error v = None"
  using assms by (auto simp: insert_product_def Let_def split: option.splits)

lemma load_products_Cons_Inr:
  assumes "load_products st (row # df) = Inr st'"
  shows "product_values_error (snd row) = None \<and>
     load_products
       (st\<lparr>ps_db := (ps_db st)\<lparr>products := products (ps_db st) @ [(Suc (products_auto (ps_db st)), snd row)],
                              products_auto := Suc (products_auto (ps_db st))\<rparr>,
           ps_id_map := (ps_id_map st)(fst row \<mapsto> Suc (products_auto (ps_db st))),
           ps_metrics := loaded products_file 1 (ps_metrics st)\<rparr>) df = Inr st'"
proof (cases "product_values_error (snd row)")
  case None
  with assms show ?thesis by (simp add: insert_product_ok)
next
  case (Some e)
  with assms show ?thesis by (simp add: insert_product_error)
qed

lemma load_products_metrics:
  "load_products st df = Inr st' \<Longrightarrow>
   metrics (ps_metrics st') file key =
     (if file = products_file \<and> key = ''records_loaded''
      then metrics (ps_metrics st) file key + int (length df)
      else metrics (ps_metrics st) file key)"
proof (induction df arbitrary: st)
  case Nil
  then show ?case by simp
next
  case (Cons row df)
  from load_products_Cons_Inr [OF Cons.prems] Cons.IH show ?case
    by (auto simp: metrics_defs)
qed

lemma load_products_drop_reasons:
  "load_products st df = Inr st' \<Longrightarrow> drop_reasons (ps_metrics st') = drop_reasons (ps_metrics st)"
proof (induction df arbitrary: st)
  case Nil
  then show ?case by simp
next
  case (Cons row df)
  from load_products_Cons_Inr [OF Cons.prems] Cons.IH show ?case
    by (auto simp: metrics_defs)
qed

lemma load_products_accepted:
  "load_products st df = Inr st' \<Longrightarrow> \<forall>row \<in> set df. product_values_error (snd row) = None"
proof (induction df arbitrary: st)
  case Nil
  then show ?case by simp
next
  case (Cons row df)
  from load_products_Cons_Inr [OF Cons.prems] Cons.IH show ?case
    by auto
qed

lemma upt_shift: "[Suc a ..< Suc (Suc (a + n))] = Suc a # [Suc (Suc a) ..< Suc (Suc (a + n))]"
  by (simp add: upt_rec [of "Suc a"])

lemma load_products_ok:
  assumes "\<forall>row \<in> set df. product_values_error (snd row) = None"
  shows "\<exists>st'. load_products st df = Inr st' \<and>
     ps_db st' = (ps_db st)\<lparr>products := products (ps_db st)
          @ zip [Suc (products_auto (ps_db st)) ..< Suc (products_auto (ps_db st)) + length df] (map snd df),
        products_auto := products_auto (ps_db st) + length df\<rparr>"
  using assms
proof (induction df arbitrary: st)
  case Nil
  then show ?case by simp
next
  case (Cons row df)
  let ?a = "products_auto (ps_db st)"
  let ?st1 = "st\<lparr>ps_db := (ps_db st)\<lparr>products := products (ps_db st) @ [(Suc ?a, snd row)],
             products_auto := Suc ?a\<rparr>, ps_id_map := (ps_id_map st)(fst row \<mapsto> Suc ?a),
                ps_metrics := loaded products_file 1 (ps_metrics st)\<rparr>"
  from Cons.prems have ok: "product_values_error (snd row) = None"
    and rest: "\<forall>row \<in> set df. product_values_error (snd row) = None"
    by simp_all
  have step: "load_products st (row # df) = load_products ?st1 df"
    by (simp add: insert_product_ok [OF ok])
  from Cons.IH [OF rest, of ?st1] obtain st' where
    r: "load_products ?st1 df = Inr st'"
    and p: "ps_db st' = (ps_db ?st1)\<lparr>products := products (ps_db ?st1)
          @ zip [Suc (products_auto (ps_db ?st1)) ..< Suc (products_auto (ps_db ?st1)) + length df] (map snd df),
        products_auto := products_auto (ps_db ?st1) + length df\<rparr>"
    by blast
  have "ps_db st' = (ps_db st)\<lparr>products := products (ps_db st)
          @ zip [Suc ?a ..< Suc ?a + length (row # df)] (map snd (row # df)),
        products_auto := ?a + length (row # df)\<rparr>"
    using p by (simp add: upt_shift del: upt_Suc)
  with step r show ?case by simp
qed

lemma load_products_abort:
  assumes "\<forall>x \<in> set xs. product_values_error (snd x) = None"
    and "product_values_error (snd row) = Some e"
  shows "load_products st (xs @ row # ys) = Inl (Storage e)"
  using assms(1)
proof (induction xs arbitrary: st)
  case Nil
  then show ?case by (simp add: insert_product_error [OF assms(2)])
next
  case (Cons x xs)
  then have ok: "product_values_error (snd x) = None" by simp
  from Cons show ?case
    by (simp add: insert_product_ok [OF ok])
qed

lemma load_products_id_map_other:
  "load_products st df = Inr st' \<Longrightarrow> k \<notin> fst ` set df \<Longrightarrow> ps_id_map st' k = ps_id_map st k"
proof (induction df arbitrary: st)
  case Nil
  then show ?case by simp
next
  case (Cons r df)
  from load_products_Cons_Inr [OF Cons.prems(1)] Cons.IH Cons.prems(2) show ?case
    by auto
qed

lemma load_products_id_map:
  "load_products st df = Inr st' \<Longrightarrow> distinct (map fst df) \<Longrightarrow> i < length df \<Longrightarrow>
   ps_id_map st' (fst (df ! i)) = Some (Suc (products_auto (ps_db st)) + i)"
proof (induction df arbitrary: st i)
  case Nil
  then show ?case by simp
next
  case (Cons r df)
  note rest = load_products_Cons_Inr [OF Cons.prems(1), THEN conjunct2]
  show ?case
  proof (cases i)
    case 0
    from Cons.prems(2) have "fst r \<notin> fst ` set df" by simp
    from load_products_id_map_other [OF rest this] show ?thesis
      by (simp add: 0)
  next
    case (Suc j)
    with Cons.prems have "distinct (map fst df)" "j < length df" by simp_all
    from Cons.IH [OF rest this] show ?thesis
      by (simp add: Suc)
  qed
qed

lemma distinct_map_eq:
  "distinct (map f xs) \<Longrightarrow> x \<in> set xs \<Longrightarrow> y \<in> set xs \<Longrightarrow> f x = f y \<Longrightarrow> x = y"
  by (auto simp: distinct_map dest: inj_onD)


lemma process_products_metrics:
  assumes "process_products lib rows db m = Inr ps"
  shows "metrics (ps_metrics ps) products_file ''missing_values_filled''
       = metrics m products_file ''missing_values_filled''
         + count_missing (map pr_stock_quantity (drop_duplicates_by pr_product_id rows))"
    and "metrics (ps_metrics ps) products_file ''duplicates_removed''
       = metrics m products_file ''duplicates_removed''
         + (int (length rows) - int (length (drop_duplicates_by pr_product_id rows)))"
    and "metrics (ps_metrics ps) products_file ''rows_dropped''
       = metrics m products_file ''rows_dropped''
         + count_missing (map pr_price (drop_duplicates_by pr_product_id rows))"
    and "drop_reasons (ps_metrics ps) products_file ''missing_price''
       = drop_reasons m products_file ''missing_price''
         + count_missing (map pr_price (drop_duplicates_by pr_product_id rows))"
    and "metrics (ps_metrics ps) products_file ''records_read''
       = metrics m products_file ''records_read'' + int (length rows)"
    and "metrics (ps_metrics ps) products_file ''records_loaded''
       = metrics m products_file ''records_loaded'' + int (length (surviving_products rows))"
proof -
  note l = assms [unfolded process_products_unfold]
  show "metrics (ps_metrics ps) products_file ''missing_values_filled''
       = metrics m products_file ''missing_values_filled''
         + count_missing (map pr_stock_quantity (drop_duplicates_by pr_product_id rows))"
    using load_products_metrics [OF l] by (simp add: transform_products_metrics)
  show "metrics (ps_metrics ps) products_file ''duplicates_removed''
       = metrics m products_file ''duplicates_removed''
         + (int (length rows) - int (length (drop_duplicates_by pr_product_id rows)))"
    using load_products_metrics [OF l] by (simp add: transform_products_metrics)
  show "metrics (ps_metrics ps) products_file ''rows_dropped''
       = metrics m products_file ''rows_dropped''
         + count_missing (map pr_price (drop_duplicates_by pr_product_id rows))"
    using load_products_metrics [OF l] by (simp add: transform_products_metrics)
  show "drop_reasons (ps_metrics ps) products_file ''missing_price''
       = drop_reasons m products_file ''missing_price''
         + count_missing (map pr_price (drop_duplicates_by pr_product_id rows))"
    using load_products_drop_reasons [OF l] by (simp add: transform_products_metrics)
  show "metrics (ps_metrics ps) products_file ''records_read''
       = metrics m products_file ''records_read'' + int (length rows)"
    using load_products_metrics [OF l] by (simp add: transform_products_metrics)
  show "metrics (ps_metrics ps) products_file ''records_loaded''
       = metrics m products_file ''records_loaded'' + int (length (surviving_products rows))"
    using load_products_metrics [OF l] by (simp add: transform_products_metrics)
qed

lemma process_products_accepted:
  assumes "process_products lib rows db m = Inr ps"
  shows "\<forall>r \<in> set (surviving_products rows). product_values_error (snd (product_insert lib r)) = None"
  using load_products_accepted [OF assms [unfolded process_products_unfold]] by simp

lemma process_products_aborts:
  assumes "surviving_products rows = xs @ r # ys"
    and "\<forall>x \<in> set xs. product_values_error (snd (product_insert lib x)) = None"
    and "product_values_error (snd (product_insert lib r)) = Some e"
  shows "process_products lib rows db m = Inl (Storage e)"
proof -
  have "\<forall>x \<in> set (map (product_insert lib) xs). product_values_error (snd x) = None"
    using assms(2) by simp
  from load_products_abort [OF this assms(3)] show ?thesis
    unfolding process_products_unfold assms(1) by simp
qed

lemma process_products_result:
  assumes ok: "\<forall>r \<in> set (surviving_products rows). product_values_error (snd (product_insert lib r)) = None"
  shows "\<exists>ps. process_products lib rows db m = Inr ps \<and>
     ps_db ps = db\<lparr>products := products db
          @ zip [Suc (products_auto db) ..< Suc (products_auto db) + length (surviving_products rows)]
              (map (\<lambda>r. snd (product_insert lib r)) (surviving_products rows)),
        products_auto := products_auto db + length (surviving_products rows)\<rparr> \<and>
     (\<forall>r \<in> set (drop_duplicates_by pr_product_id rows).
        if pr_price r = None then ps_id_map ps (pr_product_id r) = None
        else (\<exists>k. products_auto db < k \<and> (k, snd (product_insert lib r)) \<in> set (products (ps_db ps)) \<and>
                  ps_id_map ps (pr_product_id r) = Some k))"
proof -
  let ?D = "drop_duplicates_by pr_product_id rows"
  let ?F = "surviving_products rows"
  let ?df = "map (product_insert lib) ?F"
  let ?st = "\<lparr>ps_db = db, ps_id_map = Map.empty, ps_metrics = snd (transform_products lib rows m)\<rparr>"
  let ?a = "products_auto db"
  have F: "?F = filter (\<lambda>r. pr_price r \<noteq> None) ?D"
    by (simp add: surviving_products_def)
  have pre: "\<forall>row \<in> set ?df. product_values_error (snd row) = None"
    using ok by simp
  from load_products_ok [OF pre, of ?st] obtain ps where
    ps: "load_products ?st ?df = Inr ps"
    and db: "ps_db ps = db\<lparr>products := products db @ zip [Suc ?a ..< Suc ?a + length ?F] (map snd ?df),
        products_auto := ?a + length ?F\<rparr>"
    by auto
  have run: "process_products lib rows db m = Inr ps"
    by (simp add: process_products_unfold ps)
  have dD: "distinct (map pr_product_id ?D)"
    by (rule distinct_drop_duplicates_by)
  have fstdf: "map fst ?df = map pr_product_id ?F"
    by (simp add: product_insert_sel)
  have "distinct (map pr_product_id ?F)"
    unfolding F by (rule distinct_map_filter [OF dD])
  then have dF: "distinct (map fst ?df)"
    by (simp only: fstdf)
  have ids: "if pr_price r = None then ps_id_map ps (pr_product_id r) = None
        else (\<exists>k. ?a < k \<and> (k, snd (product_insert lib r)) \<in> set (products (ps_db ps)) \<and>
                  ps_id_map ps (pr_product_id r) = Some k)"
    if r: "r \<in> set ?D" for r
  proof (cases "pr_price r = None")
    case True
    have "pr_product_id r \<notin> fst ` set ?df"
    proof
      assume "pr_product_id r \<in> fst ` set ?df"
      then have "pr_product_id r \<in> pr_product_id ` set ?F"
        by (simp add: image_image product_insert_sel)
      then obtain r' where r': "r' \<in> set ?F" "pr_product_id r' = pr_product_id r"
        by (metis imageE)
      then have "r' \<in> set ?D" by (simp add: F)
      from distinct_map_eq [OF dD this r r'(2)] r'(1) True show False by (simp add: F)
    qed
    from load_products_id_map_other [OF ps this] True show ?thesis by simp
  next
    case False
    with r have "r \<in> set ?F" by (simp add: F del: not_None_eq)
    then obtain i where i: "i < length ?F" "?F ! i = r"
      by (metis in_set_conv_nth)
    from load_products_id_map [OF ps dF, of i] i
    have m: "ps_id_map ps (pr_product_id r) = Some (Suc ?a + i)"
      by (simp add: product_insert_sel)
    have "zip [Suc ?a ..< Suc ?a + length ?F] (map snd ?df) ! i = (Suc ?a + i, snd (product_insert lib r))"
      using i by (simp del: upt_Suc)
    moreover have "i < length (zip [Suc ?a ..< Suc ?a + length ?F] (map snd ?df))"
      using i by simp
    ultimately have "(Suc ?a + i, snd (product_insert lib r)) \<in> set (zip [Suc ?a ..< Suc ?a + length ?F] (map snd ?df))"
      by (metis nth_mem)
    then have "(Suc ?a + i, snd (product_insert lib r)) \<in> set (products (ps_db ps))"
      by (simp add: db)
    moreover have "?a < Suc ?a + i" by simp
    ultimately show ?thesis using m False by (simp del: not_None_eq)
  qed
  have db': "ps_db ps = db\<lparr>products := products db
          @ zip [Suc ?a ..< Suc ?a + length ?F] (map (\<lambda>r. snd (product_insert lib r)) ?F),
        products_auto := ?a + length ?F\<rparr>"
    using db by (simp add: o_def)
  from run db' ids show ?thesis by blast
qed


lemma product_defs:
  "pr_product_id example_product_1 = ''P1''" "pr_price example_product_1 = Some (1999 / 100)"
  "pr_stock_quantity example_product_1 = None" "pr_product_name example_product_1 = Some ''Pen''"
  "pr_product_id example_product_2 = ''P1''" "pr_price example_product_2 = Some 5"
  "pr_stock_quantity example_product_2 = None"
  "pr_product_id example_product_3 = ''P3''" "pr_price example_product_3 = None"
  "pr_stock_quantity example_product_3 = Some 4"
  "pr_product_id example_product_4 = ''P4''" "pr_price example_product_4 = Some 2"
  "pr_stock_quantity example_product_4 = Some 1" "pr_product_name example_product_4 = None"
  by (simp_all add: example_product_1_def example_product_2_def example_product_3_def
      example_product_4_def)

lemma example_title: "title ''office'' = ''Office''"
  by (simp add: title_eval)

lemma example_product_values:
  "snd (product_insert example_library example_product_1)
     = \<lparr>product_name = Some ''Pen'', category = Some ''Office'',
        price = Some (1999 / 100), stock_quantity = Some 0\<rparr>"
  by (simp add: example_product_1_def product_insert_def astype_str_def example_title fillna0_def)

lemma example_product_1_accepted:
  "product_values_error (snd (product_insert example_library example_product_1)) = None"
  unfolding example_product_values
  by (simp add: product_values_error_def too_long_def decimal_10_2_def int_column_def)

lemma example_products_dedup:
  "drop_duplicates_by pr_product_id example_products = [example_product_1, example_product_3]"
  by (simp add: example_products_def product_defs)

lemma example_products_surviving:
  "surviving_products example_products = [example_product_1]"
  by (simp add: surviving_products_def example_products_dedup product_defs del: not_None_eq)

lemma example_products_counts:
  "count_missing (map pr_stock_quantity [example_product_1, example_product_3]) = 1"
  "count_missing (map pr_price [example_product_1, example_product_3]) = 1"
  "length example_products = 3"
  by (simp_all add: count_missing_def product_defs example_products_def)

lemma example_products_run:
  "\<exists>ps. process_products example_library example_products empty_database new_metrics = Inr ps \<and>
     products (ps_db ps) =
       [(1, \<lparr>product_name = Some ''Pen'', category = Some ''Office'',
               price = Some (1999 / 100), stock_quantity = Some 0\<rparr>)] \<and>
     metrics (ps_metrics ps) products_file ''duplicates_removed'' = 1 \<and>
     metrics (ps_metrics ps) products_file ''missing_values_filled'' = 1 \<and>
     metrics (ps_metrics ps) products_file ''rows_dropped'' = 1 \<and>
     drop_reasons (ps_metrics ps) products_file ''missing_price'' = 1"
proof -
  have ok: "\<forall>r \<in> set (surviving_products example_products).
      product_values_error (snd (product_insert example_library r)) = None"
    unfolding example_products_surviving by (simp add: example_product_1_accepted)
  from process_products_result [OF ok, of empty_database new_metrics] obtain ps where
    run: "process_products example_library example_products empty_database new_metrics = Inr ps"
    and db: "ps_db ps = empty_database\<lparr>products := products empty_database
          @ zip [Suc (products_auto empty_database) ..<
                 Suc (products_auto empty_database) + length [example_product_1]]
              (map (\<lambda>r. snd (product_insert example_library r)) [example_product_1]),
        products_auto := products_auto empty_database + length [example_product_1]\<rparr>"
    unfolding example_products_surviving by blast
  have p: "products (ps_db ps) =
       [(1, \<lparr>product_name = Some ''Pen'', category = Some ''Office'',
               price = Some (1999 / 100), stock_quantity = Some 0\<rparr>)]"
    unfolding db by (simp add: example_product_values empty_database_def)
  note m = process_products_metrics [OF run, unfolded example_products_dedup example_products_counts]
  from run p m(1,2,3,4) show ?thesis
    by (simp add: new_metrics_def)
qed

text \<open>
  Claim C7, as amended. Of the product rows, those that survive the deduplication by
  product id (the first row of each id) are the ones the fill and the drop act on. When
  the storage accepts every surviving row with a price (name and category present, texts
  within the column widths, numbers within the column ranges), the loader returns and has
  stored exactly the surviving rows with a price, in order; such a row is stored under a
  fresh key that the \<open>id_map\<close> records for its product id, with the stock quantity 0
  when it had none; a surviving row without price is not stored and its product id gets
  no key. The counter \<open>missing_values_filled\<close> grows by the number of surviving rows
  without stock quantity, and \<open>rows_dropped\<close> and the drop reason \<open>missing_price\<close> by
  the number of surviving rows without price. A row that repeats an earlier product id
  is counted in \<open>duplicates_removed\<close> and takes no part in the other counts.
\<close>

theorem product_loader_fill_and_drop:
  assumes "\<forall>r \<in> set (surviving_products rows). product_values_error (snd (product_insert lib r)) = None"
  shows "\<exists>ps. process_products lib rows db m = Inr ps \<and>
     products (ps_db ps) = products db
          @ zip [Suc (products_auto db) ..< Suc (products_auto db) + length (surviving_products rows)]
              (map (\<lambda>r. snd (product_insert lib r)) (surviving_products rows)) \<and>
     surviving_products rows = filter (\<lambda>r. pr_price r \<noteq> None) (drop_duplicates_by pr_product_id rows) \<and>
     (\<forall>r \<in> set (drop_duplicates_by pr_product_id rows).
        if pr_price r = None then ps_id_map ps (pr_product_id r) = None
        else (\<exists>k. products_auto db < k \<and> (k, snd (product_insert lib r)) \<in> set (products (ps_db ps)) \<and>
                  ps_id_map ps (pr_product_id r) = Some k \<and>
                  price (snd (product_insert lib r)) = pr_price r \<and>
                  (pr_stock_quantity r = None \<longrightarrow> stock_quantity (snd (product_insert lib r)) = Some 0))) \<and>
     metrics (ps_metrics ps) products_file ''missing_values_filled''
       = metrics m products_file ''missing_values_filled''
         + count_missing (map pr_stock_quantity (drop_duplicates_by pr_product_id rows)) \<and>
     metrics (ps_metrics ps) products_file ''rows_dropped''
       = metrics m products_file ''rows_dropped''
         + count_missing (map pr_price (drop_duplicates_by pr_product_id rows)) \<and>
     drop_reasons (ps_metrics ps) products_file ''missing_price''
       = drop_reasons m products_file ''missing_price''
         + count_missing (map pr_price (drop_duplicates_by pr_product_id rows)) \<and>
     metrics (ps_metrics ps) products_file ''duplicates_removed''
       = metrics m products_file ''duplicates_removed''
         + (int (length rows) - int (card (pr_product_id ` set rows)))"
proof -
  from process_products_result [OF assms, of db m] obtain ps where
    run: "process_products lib rows db m = Inr ps"
    and db: "ps_db ps = db\<lparr>products := products db
          @ zip [Suc (products_auto db) ..< Suc (products_auto db) + length (surviving_products rows)]
              (map (\<lambda>r. snd (product_insert lib r)) (surviving_products rows)),
        products_auto := products_auto db + length (surviving_products rows)\<rparr>"
    and ids: "\<forall>r \<in> set (drop_duplicates_by pr_product_id rows).
        if pr_price r = None then ps_id_map ps (pr_product_id r) = None
        else (\<exists>k. products_auto db < k \<and> (k, snd (product_insert lib r)) \<in> set (products (ps_db ps)) \<and>
                  ps_id_map ps (pr_product_id r) = Some k)"
    by blast
  have z: "price (snd (product_insert lib r)) = pr_price r \<and>
      (pr_stock_quantity r = None \<longrightarrow> stock_quantity (snd (product_insert lib r)) = Some 0)" for r
    by (simp add: product_insert_def fillna0_def)
  have p: "products (ps_db ps) = products db
          @ zip [Suc (products_auto db) ..< Suc (products_auto db) + length (surviving_products rows)]
              (map (\<lambda>r. snd (product_insert lib r)) (surviving_products rows))"
    unfolding db by (simp del: upt_Suc)
  have s: "surviving_products rows = filter (\<lambda>r. pr_price r \<noteq> None) (drop_duplicates_by pr_product_id rows)"
    by (simp add: surviving_products_def)
  have ids': "\<forall>r \<in> set (drop_duplicates_by pr_product_id rows).
        if pr_price r = None then ps_id_map ps (pr_product_id r) = None
        else (\<exists>k. products_auto db < k \<and> (k, snd (product_insert lib r)) \<in> set (products (ps_db ps)) \<and>
                  ps_id_map ps (pr_product_id r) = Some k \<and>
                  price (snd (product_insert lib r)) = pr_price r \<and>
                  (pr_stock_quantity r = None \<longrightarrow> stock_quantity (snd (product_insert lib r)) = Some 0))"
  proof
    fix r assume "r \<in> set (drop_duplicates_by pr_product_id rows)"
    with ids have h: "if pr_price r = None then ps_id_map ps (pr_product_id r) = None
        else (\<exists>k. products_auto db < k \<and> (k, snd (product_insert lib r)) \<in> set (products (ps_db ps)) \<and>
                  ps_id_map ps (pr_product_id r) = Some k)"
      by blast
    show "if pr_price r = None then ps_id_map ps (pr_product_id r) = None
        else (\<exists>k. products_auto db < k \<and> (k, snd (product_insert lib r)) \<in> set (products (ps_db ps)) \<and>
                  ps_id_map ps (pr_product_id r) = Some k \<and>
                  price (snd (product_insert lib r)) = pr_price r \<and>
                  (pr_stock_quantity r = None \<longrightarrow> stock_quantity (snd (product_insert lib r)) = Some 0))"
    proof (cases "pr_price r = None")
      case True
      with h show ?thesis by simp
    next
      case False
      from h False have "\<exists>k. products_auto db < k \<and> (k, snd (product_insert lib r)) \<in> set (products (ps_db ps)) \<and>
                  ps_id_map ps (pr_product_id r) = Some k"
        by (simp only: if_False if_not_P simp_thms)
      then obtain k where "products_auto db < k"
        "(k, snd (product_insert lib r)) \<in> set (products (ps_db ps))"
        "ps_id_map ps (pr_product_id r) = Some k"
        by blast
      with z [of r] have "products_auto db < k \<and> (k, snd (product_insert lib r)) \<in> set (products (ps_db ps)) \<and>
                  ps_id_map ps (pr_product_id r) = Some k \<and>
                  price (snd (product_insert lib r)) = pr_price r \<and>
                  (pr_stock_quantity r = None \<longrightarrow> stock_quantity (snd (product_insert lib r)) = Some 0)"
        by (intro conjI) (erule conjE, assumption)+
      then have "\<exists>k. products_auto db < k \<and> (k, snd (product_insert lib r)) \<in> set (products (ps_db ps)) \<and>
                  ps_id_map ps (pr_product_id r) = Some k \<and>
                  price (snd (product_insert lib r)) = pr_price r \<and>
                  (pr_stock_quantity r = None \<longrightarrow> stock_quantity (snd (product_insert lib r)) = Some 0)"
        by (rule exI)
      with False show ?thesis by (simp only: if_False if_not_P simp_thms)
    qed
  qed
  note m = process_products_metrics [OF run]
  have d: "metrics (ps_metrics ps) products_file ''duplicates_removed''
       = metrics m products_file ''duplicates_removed''
         + (int (length rows) - int (card (pr_product_id ` set rows)))"
    using m(2) by (simp add: length_drop_duplicates_by)
  show ?thesis
    apply (rule exI [of _ ps])
    apply (intro conjI)
    apply (rule run)
    apply (rule p)
    apply (rule s)
    apply (rule ids')
    apply (rule m(1))
    apply (rule m(3))
    apply (rule m(4))
    apply (rule d)
    done
qed

theorem product_loader_fill_and_drop_witness:
  "surviving_products example_products = [example_product_1] \<and>
   product_values_error (snd (product_insert example_library example_product_1)) = None \<and>
   drop_duplicates_by pr_product_id example_products = [example_product_1, example_product_3] \<and>
   pr_stock_quantity example_product_1 = None \<and> pr_price example_product_1 = Some (1999 / 100) \<and>
   pr_price example_product_3 = None \<and>
   (\<exists>ps. process_products example_library example_products empty_database new_metrics = Inr ps \<and>
      (\<exists>k. (k, \<lparr>product_name = Some ''Pen'', category = Some ''Office'',
                 price = Some (1999 / 100), stock_quantity = Some 0\<rparr>) \<in> set (products (ps_db ps)) \<and>
           ps_id_map ps ''P1'' = Some k) \<and>
      ps_id_map ps ''P3'' = None \<and>
      metrics (ps_metrics ps) products_file ''missing_values_filled'' = 1 \<and>
      metrics (ps_metrics ps) products_file ''rows_dropped'' = 1 \<and>
      drop_reasons (ps_metrics ps) products_file ''missing_price'' = 1)"
proof -
  have ok: "\<forall>r \<in> set (surviving_products example_products).
      product_values_error (snd (product_insert example_library r)) = None"
    unfolding example_products_surviving by (simp add: example_product_1_accepted)
  from product_loader_fill_and_drop [OF ok, of empty_database new_metrics] obtain ps where
    run: "process_products example_library example_products empty_database new_metrics = Inr ps"
    and ids: "\<forall>r \<in> set (drop_duplicates_by pr_product_id example_products).
        if pr_price r = None then ps_id_map ps (pr_product_id r) = None
        else (\<exists>k. products_auto empty_database < k \<and>
                  (k, snd (product_insert example_library r)) \<in> set (products (ps_db ps)) \<and>
                  ps_id_map ps (pr_product_id r) = Some k \<and>
                  price (snd (product_insert example_library r)) = pr_price r \<and>
                  (pr_stock_quantity r = None \<longrightarrow>
                     stock_quantity (snd (product_insert example_library r)) = Some 0))"
    and m: "metrics (ps_metrics ps) products_file ''missing_values_filled''
       = metrics new_metrics products_file ''missing_values_filled''
         + count_missing (map pr_stock_quantity (drop_duplicates_by pr_product_id example_products))"
     "metrics (ps_metrics ps) products_file ''rows_dropped''
       = metrics new_metrics products_file ''rows_dropped''
         + count_missing (map pr_price (drop_duplicates_by pr_product_id example_products))"
     "drop_reasons (ps_metrics ps) products_file ''missing_price''
       = drop_reasons new_metrics products_file ''missing_price''
         + count_missing (map pr_price (drop_duplicates_by pr_product_id example_products))"
    by blast
  from ids have i0: "\<exists>k. (k, snd (product_insert example_library example_product_1)) \<in> set (products (ps_db ps)) \<and>
                  ps_id_map ps ''P1'' = Some k"
    unfolding example_products_dedup by (auto simp: product_defs)
  from ids have i1: "ps_id_map ps ''P3'' = None"
    unfolding example_products_dedup by (auto simp: product_defs)
  from run i0 i1 m
  have r: "\<exists>ps. process_products example_library example_products empty_database new_metrics = Inr ps \<and>
      (\<exists>k. (k, \<lparr>product_name = Some ''Pen'', category = Some ''Office'',
                 price = Some (1999 / 100), stock_quantity = Some 0\<rparr>) \<in> set (products (ps_db ps)) \<and>
           ps_id_map ps ''P1'' = Some k) \<and>
      ps_id_map ps ''P3'' = None \<and>
      metrics (ps_metrics ps) products_file ''missing_values_filled'' = 1 \<and>
      metrics (ps_metrics ps) products_file ''rows_dropped'' = 1 \<and>
      drop_reasons (ps_metrics ps) products_file ''missing_price'' = 1"
    unfolding example_products_dedup example_products_counts
    by (auto simp: example_product_values new_metrics_def)
  show ?thesis
    apply (intro conjI)
    apply (rule example_products_surviving)
    apply (rule example_product_1_accepted)
    apply (rule example_products_dedup)
    apply (rule product_defs(3))
    apply (rule product_defs(2))
    apply (rule product_defs(9))
    apply (rule r)
    done
qed

text \<open>
  Claim C7 as stated fails on a row that repeats a product id. Of the three example rows
  two have no stock quantity and a price; the loader stores the first of them, counts one
  filled value and removes the second as a duplicate.
\<close>

theorem product_loader_repeated_id:
  "example_products = [example_product_1, example_product_2, example_product_3] \<and>
   pr_stock_quantity example_product_2 = None \<and> pr_price example_product_2 = Some 5 \<and>
   length (filter (\<lambda>r. pr_stock_quantity r = None \<and> pr_price r \<noteq> None) example_products) = 2 \<and>
   (\<exists>ps. process_products example_library example_products empty_database new_metrics = Inr ps \<and>
     products (ps_db ps) =
       [(1, \<lparr>product_name = Some ''Pen'', category = Some ''Office'',
               price = Some (1999 / 100), stock_quantity = Some 0\<rparr>)] \<and>
     metrics (ps_metrics ps) products_file ''duplicates_removed'' = 1 \<and>
     metrics (ps_metrics ps) products_file ''missing_values_filled'' = 1 \<and>
     metrics (ps_metrics ps) products_file ''rows_dropped'' = 1 \<and>
     drop_reasons (ps_metrics ps) products_file ''missing_price'' = 1)"
proof -
  have "length (filter (\<lambda>r. pr_stock_quantity r = None \<and> pr_price r \<noteq> None) example_products) = 2"
    by (simp add: example_products_def product_defs del: not_None_eq)
  with example_products_run show ?thesis
    by (simp add: example_products_def product_defs del: not_None_eq)
qed


end
